theory Spec2Isabelle
  imports Complex_Main
begin

section \<open>Time entries: data model\<close>

text \<open>
  The time tracking feature of the API server: the serializers of
  \<^verbatim>\<open>plane/api/serializers/time_entry.py\<close> and the views of
  \<^verbatim>\<open>plane/app/views/time_entry.py\<close>, over the table that migration 0108 creates.

  Primary keys (UUIDs) are natural numbers. An instant (a timezone-aware datetime) is its
  number of microseconds since the epoch, the resolution of Python's datetime; a
  timedelta is a difference of two instants, again in microseconds. A workspace is
  identified by its slug.
\<close>

type_synonym uuid = nat
type_synonym instant = int
type_synonym slug = string

text \<open>
  The text of a note is a Python \<^verbatim>\<open>str\<close>: the list of its code points.
\<close>

type_synonym py_str = "nat list"

datatype TimeEntrySource = TIMER | MANUAL

text \<open>
  A row of table \<^verbatim>\<open>time_entries\<close>. The audit columns updated_at, created_by,
  updated_by and deleted_at take no part in what follows and are left out.
\<close>

record time_entry =
  te_id :: uuid
  te_workspace :: slug
  te_project :: uuid
  te_issue :: uuid
  te_user :: uuid
  started_at :: "instant option"
  ended_at :: "instant option"
  duration_seconds :: int
  source :: TimeEntrySource
  te_note :: "py_str option"
  is_billable :: bool
  created_at :: instant

section \<open>Durations\<close>

text \<open>
  \<^verbatim>\<open>timedelta.total_seconds()\<close> is the float of the true division of the
  microseconds by \<^verbatim>\<open>10**6\<close>. Python rounds the quotient of two integers correctly: to
  the nearest float with a mantissa of 53 bits, a tie going to the even mantissa. What
  follows computes the integer part of that float.
\<close>

text \<open>\<^verbatim>\<open>int.bit_length()\<close>.\<close>

fun bit_length :: "nat \<Rightarrow> nat" where
  "bit_length n = (if n = 0 then 0 else Suc (bit_length (n div 2)))"

text \<open>The quotient \<open>p / q\<close> (for \<open>q > 0\<close>) rounded to the nearest integer, ties to even.\<close>

definition round_half_even :: "int \<Rightarrow> int \<Rightarrow> int" where
  "round_half_even p q =
     (let f = p div q; r = p mod q
      in if 2 * r < q then f
         else if q < 2 * r then f + 1
         else if even f then f else f + 1)"

text \<open>
  \<^verbatim>\<open>int(n / 10**6)\<close> for \<open>n \<ge> 0\<close>. When the whole seconds have \<open>b\<close> bits the
  quotient lies between \<open>2 ^ (b - 1)\<close> and \<open>2 ^ b\<close>, so the float is the quotient scaled by
  \<open>2 ^ (53 - b)\<close>, rounded to an integer mantissa and scaled back; Python's \<^verbatim>\<open>int\<close> then
  drops the fraction. A quotient below 1 gives a float below 1. (A timedelta is shorter
  than \<open>10 ^ 9\<close> days, far inside the range of a float.)
\<close>

definition int_of_true_divide :: "int \<Rightarrow> int" where
  "int_of_true_divide n =
     (let b = bit_length (nat (n div 1000000))
      in if b = 0 then 0
         else if b \<le> 53
           then round_half_even (n * 2 ^ (53 - b)) 1000000 div 2 ^ (53 - b)
           else round_half_even n (1000000 * 2 ^ (b - 53)) * 2 ^ (b - 53))"

text \<open>
  \<^verbatim>\<open>int(delta.total_seconds())\<close> for a timedelta of \<open>delta\<close> microseconds: the float of
  a negative quotient is the negated float of the positive one, and \<^verbatim>\<open>int\<close> truncates
  towards zero.
\<close>

definition int_total_seconds :: "int \<Rightarrow> int" where
  "int_total_seconds delta =
     (if 0 \<le> delta then int_of_true_divide delta else - int_of_true_divide (- delta))"

text \<open>
  \<^verbatim>\<open>delta = finish - start; max(0, int(delta.total_seconds()))\<close>, the expression that the
  serializers and the timer views share.
\<close>

definition elapsed_seconds :: "instant \<Rightarrow> instant \<Rightarrow> int" where
  "elapsed_seconds start finish = max 0 (int_total_seconds (finish - start))"

text \<open>
  An instant from a day number (days since 1970-01-01) and a time of day;
  2024-01-01 is day 19723.
\<close>

definition at_time :: "int \<Rightarrow> int \<Rightarrow> int \<Rightarrow> int \<Rightarrow> instant" where
  "at_time day h m s = (((day * 24 + h) * 60 + m) * 60 + s) * 1000000"

section \<open>Serializers\<close>

text \<open>
  \<^verbatim>\<open>str.strip()\<close>, with which a \<^verbatim>\<open>CharField\<close> of a serializer trims the text it
  reads: the code points for which \<^verbatim>\<open>str.isspace()\<close> holds are dropped at both ends.
\<close>

definition isspace :: "nat \<Rightarrow> bool" where
  "isspace c \<longleftrightarrow>
     c \<in> set [9, 10, 11, 12, 13, 28, 29, 30, 31, 32, 133, 160, 5760, 8192, 8193, 8194, 8195,
              8196, 8197, 8198, 8199, 8200, 8201, 8202, 8232, 8233, 8239, 8287, 12288]"

definition strip :: "py_str \<Rightarrow> py_str" where
  "strip str = rev (dropWhile isspace (rev (dropWhile isspace str)))"

datatype validation_error =
  DurationRequired
| StartedAtRequired
| StartedAfterEnded
| DurationRequiredQuick
| FieldInvalid

text \<open>
  The attribute dictionary that \<^verbatim>\<open>TimeEntrySerializer.validate\<close> receives: a key that
  is absent is \<open>None\<close>.
\<close>

record entry_data =
  d_source :: "TimeEntrySource option"
  d_started_at :: "instant option"
  d_ended_at :: "instant option"
  d_duration_seconds :: "int option"

text \<open>\<^verbatim>\<open>TimeEntrySerializer.validate\<close>.\<close>

definition validate :: "entry_data \<Rightarrow> validation_error + entry_data" where
  "validate data =
     (let src = (case d_source data of None \<Rightarrow> MANUAL | Some s \<Rightarrow> s);
          started = d_started_at data;
          ended = d_ended_at data;
          dur = (case d_duration_seconds data of None \<Rightarrow> 0 | Some d \<Rightarrow> d)
      in if src = MANUAL \<and> (dur = 0 \<or> dur \<le> 0) then Inl DurationRequired
         else if src = TIMER \<and> started = None then Inl StartedAtRequired
         else (case (started, ended) of
                 (Some s, Some e) \<Rightarrow>
                   if s > e then Inl StartedAfterEnded
                   else if dur = 0
                     then Inr (data\<lparr>d_duration_seconds := Some (elapsed_seconds s e)\<rparr>)
                     else Inr data
               | _ \<Rightarrow> Inr data))"

text \<open>
  The payload of the issue-scoped create endpoint, as the fields of
  \<^verbatim>\<open>TimeEntryCreateSerializer\<close> read it. \<^verbatim>\<open>issue_id\<close> is required;
  \<^verbatim>\<open>duration_seconds\<close> has \<^verbatim>\<open>min_value=0\<close>; \<^verbatim>\<open>source\<close> defaults to MANUAL and
  \<^verbatim>\<open>is_billable\<close> to False. (The plain \<^verbatim>\<open>IntegerField\<close> has no maximum: a
  duration beyond the column's range reaches the database.)
\<close>

record create_payload =
  p_issue_id :: "uuid option"
  p_duration_seconds :: "int option"
  p_started_at :: "instant option"
  p_ended_at :: "instant option"
  p_source :: "TimeEntrySource option"
  p_note :: "py_str option"
  p_is_billable :: "bool option"

text \<open>The validated data of the create serializer, with the field defaults filled in.\<close>

record create_data =
  c_issue_id :: uuid
  c_duration_seconds :: "int option"
  c_started_at :: "instant option"
  c_ended_at :: "instant option"
  c_source :: TimeEntrySource
  c_note :: "py_str option"
  c_is_billable :: bool

text \<open>
  Field validation, which \<^verbatim>\<open>is_valid\<close> runs before \<^verbatim>\<open>validate\<close>; the note is
  trimmed.
\<close>

definition create_fields :: "create_payload \<Rightarrow> validation_error + create_data" where
  "create_fields p =
     (case p_issue_id p of
        None \<Rightarrow> Inl FieldInvalid
      | Some i \<Rightarrow>
          if (case p_duration_seconds p of None \<Rightarrow> False | Some d \<Rightarrow> d < 0)
          then Inl FieldInvalid
          else Inr \<lparr>c_issue_id = i,
                    c_duration_seconds = p_duration_seconds p,
                    c_started_at = p_started_at p,
                    c_ended_at = p_ended_at p,
                    c_source = (case p_source p of None \<Rightarrow> MANUAL | Some s \<Rightarrow> s),
                    c_note = map_option strip (p_note p),
                    c_is_billable = (case p_is_billable p of None \<Rightarrow> False | Some b \<Rightarrow> b)\<rparr>)"

text \<open>\<^verbatim>\<open>TimeEntryCreateSerializer.validate\<close>; \<open>now\<close> is \<^verbatim>\<open>timezone.now()\<close>.\<close>

definition create_validate :: "instant \<Rightarrow> create_data \<Rightarrow> validation_error + create_data" where
  "create_validate now data =
     (case c_source data of
        MANUAL \<Rightarrow>
          (if c_duration_seconds data = None \<or> c_duration_seconds data = Some 0
           then Inl DurationRequiredQuick else Inr data)
      | TIMER \<Rightarrow>
          (if c_started_at data = None then Inr (data\<lparr>c_started_at := Some now\<rparr>)
           else Inr data))"

text \<open>
  A field of a partial update: absent from the payload, or given (for the two
  datetimes, which allow null, given as \<open>None\<close> or as an instant).
\<close>

datatype 'a field = Absent | Given 'a

record update_data =
  u_duration_seconds :: "int field"
  u_started_at :: "instant option field"
  u_ended_at :: "instant option field"
  u_note :: "py_str option field"
  u_is_billable :: "bool field"

text \<open>\<^verbatim>\<open>data.get(key) or self.instance.key\<close> for a datetime field.\<close>

definition get_or :: "instant option field \<Rightarrow> instant option \<Rightarrow> instant option" where
  "get_or f inst = (case f of Given (Some v) \<Rightarrow> Some v | _ \<Rightarrow> inst)"

text \<open>\<^verbatim>\<open>TimeEntryUpdateSerializer.validate\<close>, on the instance being updated.\<close>

definition update_validate :: "time_entry \<Rightarrow> update_data \<Rightarrow> validation_error + update_data" where
  "update_validate instance data =
     (case (get_or (u_started_at data) (started_at instance),
            get_or (u_ended_at data) (ended_at instance)) of
        (Some s, Some e) \<Rightarrow>
          if s > e then Inl StartedAfterEnded
          else if u_duration_seconds data = Absent \<or> u_duration_seconds data = Given 0
            then Inr (data\<lparr>u_duration_seconds := Given (elapsed_seconds s e)\<rparr>)
            else Inr data
      | _ \<Rightarrow> Inr data)"

text \<open>
  \<^verbatim>\<open>serializer.save()\<close> of a partial update: every key of the validated data is set
  on the instance.
\<close>

definition apply_update :: "time_entry \<Rightarrow> update_data \<Rightarrow> time_entry" where
  "apply_update instance data =
     instance\<lparr>
       duration_seconds := (case u_duration_seconds data of Absent \<Rightarrow> duration_seconds instance | Given d \<Rightarrow> d),
       started_at := (case u_started_at data of Absent \<Rightarrow> started_at instance | Given v \<Rightarrow> v),
       ended_at := (case u_ended_at data of Absent \<Rightarrow> ended_at instance | Given v \<Rightarrow> v),
       te_note := (case u_note data of Absent \<Rightarrow> te_note instance | Given v \<Rightarrow> v),
       is_billable := (case u_is_billable data of Absent \<Rightarrow> is_billable instance | Given v \<Rightarrow> v)\<rparr>"

text \<open>
  The serialized entry: the columns and the derived \<^verbatim>\<open>is_active\<close> of
  \<^verbatim>\<open>TimeEntrySerializer.to_representation\<close>. The floats \<^verbatim>\<open>duration_hours\<close> and
  \<^verbatim>\<open>duration_minutes\<close> and the nested user and issue details are left out.
\<close>

record representation = time_entry +
  is_active :: bool

definition to_representation :: "time_entry \<Rightarrow> representation" where
  "to_representation instance =
     time_entry.extend instance
       \<lparr>is_active = (started_at instance \<noteq> None \<and> ended_at instance = None
                      \<and> source instance = TIMER)\<rparr>"

section \<open>The database\<close>

record project =
  project_id :: uuid
  is_time_tracking_enabled :: bool

record issue =
  issue_id :: uuid
  issue_project :: uuid
  issue_workspace :: slug

text \<open>A row of \<^verbatim>\<open>ModuleIssue\<close>, with the name of the module it points to.\<close>

record module_issue =
  mi_issue_id :: uuid
  mi_module_id :: uuid
  mi_module_name :: string

record user =
  user_id :: uuid
  email :: string
  display_name :: string

text \<open>
  Every table is the list of its rows in the order in which a query returns them.
  For \<^verbatim>\<open>time_entries\<close> that is the model's default ordering \<^verbatim>\<open>-created_at\<close>: the
  newest row first, so that a created row is put in front. \<open>admins\<close> holds the pairs
  (project, member) of the active \<^verbatim>\<open>ProjectMember\<close> rows with role ADMIN.
\<close>

record database =
  projects :: "project list"
  issues :: "issue list"
  time_entries :: "time_entry list"
  module_issues :: "module_issue list"
  users :: "user list"
  admins :: "(uuid \<times> uuid) list"

text \<open>\<^verbatim>\<open>queryset.first()\<close>.\<close>

definition first :: "'a list \<Rightarrow> 'a option" where
  "first xs = (case xs of [] \<Rightarrow> None | x # _ \<Rightarrow> Some x)"

text \<open>
  What the database raises when a row is written. Column \<^verbatim>\<open>duration_seconds\<close> is a
  \<^verbatim>\<open>PositiveIntegerField\<close>: a 32-bit integer with a check that it is not negative. A
  value above 2147483647 is out of range (\<^verbatim>\<open>DataError\<close>), a negative one violates the
  check (\<^verbatim>\<open>IntegrityError\<close>).
\<close>

datatype db_exception = DataError | IntegrityError

definition check_row :: "time_entry \<Rightarrow> db_exception option" where
  "check_row e =
     (if 2147483647 < duration_seconds e then Some DataError
      else if duration_seconds e < 0 then Some IntegrityError
      else None)"

text \<open>
  \<^verbatim>\<open>instance.save()\<close> of an existing row: the row with that primary key is replaced,
  unless the database raises.
\<close>

definition save :: "time_entry \<Rightarrow> time_entry list \<Rightarrow> db_exception + time_entry list" where
  "save e es =
     (case check_row e of
        Some exc \<Rightarrow> Inl exc
      | None \<Rightarrow> Inr (map (\<lambda>x. if te_id x = te_id e then e else x) es))"

text \<open>
  \<^verbatim>\<open>TimeEntry.objects.create(...)\<close>: the new row is the newest, unless the database
  raises.
\<close>

definition objects_create :: "time_entry \<Rightarrow> time_entry list \<Rightarrow> db_exception + time_entry list" where
  "objects_create e es =
     (case check_row e of
        Some exc \<Rightarrow> Inl exc
      | None \<Rightarrow> Inr (e # es))"

section \<open>Views\<close>

text \<open>
  A row of an aggregating query
  \<^verbatim>\<open>queryset.values(...).annotate(total_seconds=Sum("duration_seconds"), entry_count=Count("id"))\<close>:
  the grouping columns and the two aggregates. The report rows are built from these; their
  float \<^verbatim>\<open>total_hours\<close> and the display columns joined from the user, issue and project
  tables are left out.
\<close>

record 'k group_row =
  group_key :: 'k
  total_seconds :: int
  entry_count :: nat

text \<open>
  The \<^verbatim>\<open>data\<close> of a report, by \<^verbatim>\<open>group_by\<close>: rows keyed by user id, by issue id and
  project id, by project id, and by module id (with the module's name).
\<close>

datatype report_data =
  UserReport "uuid group_row list"
| WorkItemReport "(uuid \<times> uuid) group_row list"
| ProjectReport "uuid group_row list"
| ModuleReport "(uuid \<times> string) group_row list"

datatype body =
  Error string
| Errors validation_error
| Entry representation
| ActiveTimer "representation option"
| NoContent
| Report string "string option" "string option" report_data
| Raised db_exception

text \<open>
  A response is its status and its body. An exception of the database that a view does
  not catch leaves the view method; it is shown here as the pair of status 500 and the
  exception, whatever the base view, which is not among these sources, makes of it.
\<close>

type_synonym response = "nat \<times> body"

text \<open>\<^verbatim>\<open>_check_time_tracking_enabled\<close>: an error response, or \<open>None\<close>.\<close>

definition check_time_tracking_enabled :: "database \<Rightarrow> uuid \<Rightarrow> response option" where
  "check_time_tracking_enabled db pid =
     (case find (\<lambda>p. project_id p = pid) (projects db) of
        None \<Rightarrow> Some (404, Error ''Project not found'')
      | Some p \<Rightarrow>
          if \<not> is_time_tracking_enabled p
          then Some (403, Error ''Time tracking is not enabled for this project'')
          else None)"

text \<open>\<^verbatim>\<open>Issue.objects.get(id=issue_id, project_id=project_id, workspace__slug=slug)\<close>.\<close>

definition get_issue :: "database \<Rightarrow> uuid \<Rightarrow> uuid \<Rightarrow> slug \<Rightarrow> issue option" where
  "get_issue db iid pid sl =
     find (\<lambda>i. issue_id i = iid \<and> issue_project i = pid \<and> issue_workspace i = sl) (issues db)"

text \<open>
  The filter of the three timer views:
  \<^verbatim>\<open>issue_id=issue_id, user=request.user, started_at__isnull=False, ended_at__isnull=True\<close>.
\<close>

definition active_timer_filter :: "uuid \<Rightarrow> uuid \<Rightarrow> time_entry \<Rightarrow> bool" where
  "active_timer_filter iid u e \<longleftrightarrow>
     te_issue e = iid \<and> te_user e = u \<and> started_at e \<noteq> None \<and> ended_at e = None"

text \<open>
  The filter of \<^verbatim>\<open>other_active_timers\<close>:
  \<^verbatim>\<open>user=request.user, started_at__isnull=False, ended_at__isnull=True\<close>, excluding
  \<^verbatim>\<open>issue_id\<close>.
\<close>

definition other_active_filter :: "uuid \<Rightarrow> uuid \<Rightarrow> time_entry \<Rightarrow> bool" where
  "other_active_filter iid u e \<longleftrightarrow>
     te_user e = u \<and> started_at e \<noteq> None \<and> ended_at e = None \<and> te_issue e \<noteq> iid"

text \<open>
  Stopping one timer, as both timer views do it:
  \<^verbatim>\<open>timer.ended_at = now; if timer.started_at: timer.duration_seconds = max(0, int(delta.total_seconds()))\<close>.
\<close>

definition stop_timer :: "instant \<Rightarrow> time_entry \<Rightarrow> time_entry" where
  "stop_timer now timer =
     timer\<lparr>ended_at := Some now,
            duration_seconds :=
              (case started_at timer of
                 Some s \<Rightarrow> elapsed_seconds s now
               | None \<Rightarrow> duration_seconds timer)\<rparr>"

text \<open>
  The loop \<^verbatim>\<open>for timer in other_active_timers: ...; timer.save()\<close>. When a save
  raises, the loop ends with the exception, the rows saved before it staying saved (each
  save is committed on its own).
\<close>

fun stop_all ::
  "instant \<Rightarrow> time_entry list \<Rightarrow> time_entry list
     \<Rightarrow> (db_exception \<times> time_entry list) + time_entry list" where
  "stop_all now [] es = Inr es"
| "stop_all now (timer # timers) es =
     (case save (stop_timer now timer) es of
        Inl exc \<Rightarrow> Inl (exc, es)
      | Inr saved \<Rightarrow> stop_all now timers saved)"

text \<open>
  The body of a timer start request: \<^verbatim>\<open>request.data.get("note", "")\<close> and
  \<^verbatim>\<open>request.data.get("is_billable", False)\<close>.
\<close>

record timer_request =
  tr_note :: "py_str option field"
  tr_is_billable :: "bool field"

text \<open>
  The row that \<^verbatim>\<open>TimeEntryTimerEndpoint.post\<close> creates with
  \<^verbatim>\<open>TimeEntry.objects.create(issue=issue, user=request.user, ..., started_at=now, source=TIMER, ...)\<close>;
  \<^verbatim>\<open>duration_seconds\<close> and \<^verbatim>\<open>ended_at\<close> take the model's defaults.
\<close>

definition new_timer :: "issue \<Rightarrow> uuid \<Rightarrow> instant \<Rightarrow> uuid \<Rightarrow> timer_request \<Rightarrow> time_entry" where
  "new_timer iss u now new_id req =
     \<lparr>te_id = new_id,
      te_workspace = issue_workspace iss,
      te_project = issue_project iss,
      te_issue = issue_id iss,
      te_user = u,
      started_at = Some now,
      ended_at = None,
      duration_seconds = 0,
      source = TIMER,
      te_note = (case tr_note req of Absent \<Rightarrow> Some [] | Given n \<Rightarrow> n),
      is_billable = (case tr_is_billable req of Absent \<Rightarrow> False | Given b \<Rightarrow> b),
      created_at = now\<rparr>"

text \<open>
  \<^verbatim>\<open>TimeEntryTimerEndpoint.post\<close>. \<open>now\<close> is the clock, \<open>new_id\<close> the primary key that
  \<^verbatim>\<open>uuid4\<close> draws for the created row, \<open>u\<close> the requesting user. The permission
  decorator has already admitted the request.
\<close>

definition TimeEntryTimerEndpoint_post ::
  "database \<Rightarrow> instant \<Rightarrow> uuid \<Rightarrow> uuid \<Rightarrow> timer_request \<Rightarrow> slug \<Rightarrow> uuid \<Rightarrow> uuid
     \<Rightarrow> response \<times> database" where
  "TimeEntryTimerEndpoint_post db now new_id u req sl pid iid =
     (case check_time_tracking_enabled db pid of
        Some error_response \<Rightarrow> (error_response, db)
      | None \<Rightarrow>
         (case get_issue db iid pid sl of
            None \<Rightarrow> ((404, Error ''Issue not found''), db)
          | Some iss \<Rightarrow>
             (case first (filter (active_timer_filter iid u) (time_entries db)) of
                Some active_timer \<Rightarrow>
                  ((400, Error ''You already have an active timer on this issue''), db)
              | None \<Rightarrow>
                  (let other_active_timers = filter (other_active_filter iid u) (time_entries db)
                   in (case stop_all now other_active_timers (time_entries db) of
                         Inl (exc, saved) \<Rightarrow> ((500, Raised exc), db\<lparr>time_entries := saved\<rparr>)
                       | Inr stopped \<Rightarrow>
                          (let entry = new_timer iss u now new_id req
                           in (case objects_create entry stopped of
                                 Inl exc \<Rightarrow> ((500, Raised exc), db\<lparr>time_entries := stopped\<rparr>)
                               | Inr created \<Rightarrow>
                                   ((201, Entry (to_representation entry)),
                                    db\<lparr>time_entries := created\<rparr>))))))))"

text \<open>\<^verbatim>\<open>TimeEntryTimerEndpoint.delete\<close>: stop the timer.\<close>

definition TimeEntryTimerEndpoint_delete ::
  "database \<Rightarrow> instant \<Rightarrow> uuid \<Rightarrow> slug \<Rightarrow> uuid \<Rightarrow> uuid \<Rightarrow> response \<times> database" where
  "TimeEntryTimerEndpoint_delete db now u sl pid iid =
     (case check_time_tracking_enabled db pid of
        Some error_response \<Rightarrow> (error_response, db)
      | None \<Rightarrow>
         (case first (filter (active_timer_filter iid u) (time_entries db)) of
            None \<Rightarrow> ((404, Error ''No active timer found for this issue''), db)
          | Some active_timer \<Rightarrow>
              (let stopped = stop_timer now active_timer
               in (case save stopped (time_entries db) of
                     Inl exc \<Rightarrow> ((500, Raised exc), db)
                   | Inr saved \<Rightarrow>
                       ((200, Entry (to_representation stopped)),
                        db\<lparr>time_entries := saved\<rparr>)))))"

text \<open>\<^verbatim>\<open>TimeEntryActiveTimerEndpoint.get\<close>: a read, the database is not touched.\<close>

definition TimeEntryActiveTimerEndpoint_get ::
  "database \<Rightarrow> uuid \<Rightarrow> slug \<Rightarrow> uuid \<Rightarrow> uuid \<Rightarrow> response" where
  "TimeEntryActiveTimerEndpoint_get db u sl pid iid =
     (case first (filter (active_timer_filter iid u) (time_entries db)) of
        None \<Rightarrow> (200, ActiveTimer None)
      | Some active_timer \<Rightarrow> (200, ActiveTimer (Some (to_representation active_timer))))"

text \<open>
  The row that \<^verbatim>\<open>TimeEntryViewSet.create\<close> stores with
  \<^verbatim>\<open>TimeEntry.objects.create(**time_entry_data)\<close>, after the view has set
  \<^verbatim>\<open>issue\<close>, \<^verbatim>\<open>user\<close>, \<^verbatim>\<open>workspace\<close>, \<^verbatim>\<open>project\<close> and
  \<^verbatim>\<open>source = MANUAL\<close> in the validated data. The data still holds the payload's
  \<^verbatim>\<open>issue_id\<close> beside \<^verbatim>\<open>issue\<close>: Django sets the related object first and the
  remaining keyword \<^verbatim>\<open>issue_id\<close> after it, so the row's issue is the payload's.
  Columns the data does not name take the model's defaults (\<^verbatim>\<open>duration_seconds\<close> 0,
  the others null). Foreign key violations are not modelled.
\<close>

definition new_entry :: "issue \<Rightarrow> uuid \<Rightarrow> instant \<Rightarrow> uuid \<Rightarrow> create_data \<Rightarrow> time_entry" where
  "new_entry iss u now new_id time_entry_data =
     \<lparr>te_id = new_id,
      te_workspace = issue_workspace iss,
      te_project = issue_project iss,
      te_issue = c_issue_id time_entry_data,
      te_user = u,
      started_at = c_started_at time_entry_data,
      ended_at = c_ended_at time_entry_data,
      duration_seconds = (case c_duration_seconds time_entry_data of None \<Rightarrow> 0 | Some d \<Rightarrow> d),
      source = MANUAL,
      te_note = c_note time_entry_data,
      is_billable = c_is_billable time_entry_data,
      created_at = now\<rparr>"

text \<open>\<^verbatim>\<open>TimeEntryViewSet.create\<close>.\<close>

definition TimeEntryViewSet_create ::
  "database \<Rightarrow> instant \<Rightarrow> uuid \<Rightarrow> uuid \<Rightarrow> create_payload \<Rightarrow> slug \<Rightarrow> uuid \<Rightarrow> uuid
     \<Rightarrow> response \<times> database" where
  "TimeEntryViewSet_create db now new_id u payload sl pid iid =
     (case check_time_tracking_enabled db pid of
        Some error_response \<Rightarrow> (error_response, db)
      | None \<Rightarrow>
         (case get_issue db iid pid sl of
            None \<Rightarrow> ((404, Error ''Issue not found''), db)
          | Some iss \<Rightarrow>
             (case create_fields payload of
                Inl err \<Rightarrow> ((400, Errors err), db)
              | Inr checked \<Rightarrow>
                 (case create_validate now checked of
                    Inl err \<Rightarrow> ((400, Errors err), db)
                  | Inr time_entry_data \<Rightarrow>
                     (let entry = new_entry iss u now new_id time_entry_data
                      in (case objects_create entry (time_entries db) of
                            Inl exc \<Rightarrow> ((500, Raised exc), db)
                          | Inr created \<Rightarrow>
                              ((201, Entry (to_representation entry)),
                               db\<lparr>time_entries := created\<rparr>)))))))"

text \<open>
  \<^verbatim>\<open>get_queryset().get(pk=pk)\<close> of the view set: the row with that key among those of
  the workspace, the project and the issue of the URL.
\<close>

definition get_entry :: "database \<Rightarrow> slug \<Rightarrow> uuid \<Rightarrow> uuid \<Rightarrow> uuid \<Rightarrow> time_entry option" where
  "get_entry db sl pid iid pk =
     find (\<lambda>e. te_workspace e = sl \<and> te_project e = pid \<and> te_issue e = iid \<and> te_id e = pk)
       (time_entries db)"

text \<open>
  Field validation of \<^verbatim>\<open>TimeEntryUpdateSerializer\<close>, a model serializer: the
  \<^verbatim>\<open>PositiveIntegerField\<close> of the model gives \<^verbatim>\<open>duration_seconds\<close> the minimum 0
  and the maximum 2147483647, and the note is trimmed.
\<close>

definition update_fields :: "update_data \<Rightarrow> validation_error + update_data" where
  "update_fields data =
     (let trimmed =
            data\<lparr>u_note := (case u_note data of
                                Absent \<Rightarrow> Absent
                              | Given v \<Rightarrow> Given (map_option strip v))\<rparr>
      in (case u_duration_seconds data of
            Given d \<Rightarrow> if d < 0 \<or> 2147483647 < d then Inl FieldInvalid else Inr trimmed
          | Absent \<Rightarrow> Inr trimmed))"

text \<open>\<^verbatim>\<open>TimeEntryViewSet.partial_update\<close>.\<close>

definition TimeEntryViewSet_partial_update ::
  "database \<Rightarrow> uuid \<Rightarrow> update_data \<Rightarrow> slug \<Rightarrow> uuid \<Rightarrow> uuid \<Rightarrow> uuid \<Rightarrow> response \<times> database" where
  "TimeEntryViewSet_partial_update db u payload sl pid iid pk =
     (case check_time_tracking_enabled db pid of
        Some error_response \<Rightarrow> (error_response, db)
      | None \<Rightarrow>
         (case get_entry db sl pid iid pk of
            None \<Rightarrow> ((404, Error ''Time entry not found''), db)
          | Some time_entry \<Rightarrow>
              if te_user time_entry \<noteq> u \<and> (pid, u) \<notin> set (admins db)
              then ((403, Error ''You don't have permission to update this time entry''), db)
              else
                (case update_fields payload of
                   Inl err \<Rightarrow> ((400, Errors err), db)
                 | Inr checked \<Rightarrow>
                    (case update_validate time_entry checked of
                       Inl err \<Rightarrow> ((400, Errors err), db)
                     | Inr data \<Rightarrow>
                        (let updated = apply_update time_entry data
                         in (case save updated (time_entries db) of
                               Inl exc \<Rightarrow> ((500, Raised exc), db)
                             | Inr saved \<Rightarrow>
                                 ((200, Entry (to_representation updated)),
                                  db\<lparr>time_entries := saved\<rparr>)))))))"

text \<open>\<^verbatim>\<open>TimeEntryViewSet.destroy\<close>.\<close>

definition TimeEntryViewSet_destroy ::
  "database \<Rightarrow> uuid \<Rightarrow> slug \<Rightarrow> uuid \<Rightarrow> uuid \<Rightarrow> uuid \<Rightarrow> response \<times> database" where
  "TimeEntryViewSet_destroy db u sl pid iid pk =
     (case check_time_tracking_enabled db pid of
        Some error_response \<Rightarrow> (error_response, db)
      | None \<Rightarrow>
         (case get_entry db sl pid iid pk of
            None \<Rightarrow> ((404, Error ''Time entry not found''), db)
          | Some time_entry \<Rightarrow>
              if te_user time_entry \<noteq> u \<and> (pid, u) \<notin> set (admins db)
              then ((403, Error ''You don't have permission to delete this time entry''), db)
              else ((204, NoContent),
                    db\<lparr>time_entries := filter (\<lambda>e. te_id e \<noteq> te_id time_entry) (time_entries db)\<rparr>)))"

section \<open>Reports\<close>

text \<open>
  The query parameters of the report: \<^verbatim>\<open>group_by\<close>, \<^verbatim>\<open>from\<close>, \<^verbatim>\<open>to\<close>,
  \<^verbatim>\<open>project_id\<close> and \<^verbatim>\<open>user_id\<close>; \<open>None\<close> when the parameter is absent.
\<close>

record report_query =
  q_group_by :: "string option"
  q_from :: "string option"
  q_to :: "string option"
  q_project_id :: "uuid option"
  q_user_id :: "uuid option"

text \<open>
  \<^verbatim>\<open>created_at__date\<close>: the day number of an instant (days since the epoch, in UTC).
\<close>

definition date_of :: "instant \<Rightarrow> int" where
  "date_of t = t div 86400000000"

text \<open>
  One of the two date filters. \<open>strptime\<close> stands for
  \<^verbatim>\<open>datetime.strptime(s, "%Y-%m-%d").date()\<close>, the day number of the date or \<open>None\<close> for
  a \<^verbatim>\<open>ValueError\<close>; the result is \<open>None\<close> when the view answers 400. An absent or empty
  parameter filters nothing.
\<close>

definition date_filter ::
  "(string \<Rightarrow> int option) \<Rightarrow> string option \<Rightarrow> (int \<Rightarrow> int \<Rightarrow> bool) \<Rightarrow> time_entry list
     \<Rightarrow> time_entry list option" where
  "date_filter strptime param cmp queryset =
     (case param of
        None \<Rightarrow> Some queryset
      | Some str \<Rightarrow>
          if str = [] then Some queryset
          else (case strptime str of
                  None \<Rightarrow> None
                | Some date_obj \<Rightarrow>
                    Some (filter (\<lambda>e. cmp (date_of (created_at e)) date_obj) queryset)))"

text \<open>
  Grouping: one more row of the query result is added to its group, a new group being
  put last. The groups of \<^verbatim>\<open>values(...).annotate(...)\<close> are those of the rows taken one
  by one; the database does not promise their order.
\<close>

fun annotate_row :: "'k \<Rightarrow> int \<Rightarrow> 'k group_row list \<Rightarrow> 'k group_row list" where
  "annotate_row k d [] = [\<lparr>group_key = k, total_seconds = d, entry_count = 1\<rparr>]"
| "annotate_row k d (g # gs) =
     (if group_key g = k
      then g\<lparr>total_seconds := total_seconds g + d, entry_count := Suc (entry_count g)\<rparr> # gs
      else g # annotate_row k d gs)"

definition values_annotate :: "(time_entry \<Rightarrow> 'k) \<Rightarrow> time_entry list \<Rightarrow> 'k group_row list" where
  "values_annotate key queryset =
     foldl (\<lambda>gs e. annotate_row (key e) (duration_seconds e) gs) [] queryset"

text \<open>
  \<^verbatim>\<open>order_by("-total_seconds")\<close>, and \<^verbatim>\<open>sort(key=..., reverse=True)\<close> of the module
  branch: descending by total, rows of equal total keeping their order (Python's sort is
  stable also when reversed; the database leaves the order of ties open).
\<close>

definition order_by_total_desc :: "'k group_row list \<Rightarrow> 'k group_row list" where
  "order_by_total_desc gs = sort_key (\<lambda>g. - total_seconds g) gs"

text \<open>
  \<^verbatim>\<open>ModuleIssue.objects.filter(issue_id=item["issue_id"]).select_related("module").first()\<close>.
\<close>

definition first_module :: "database \<Rightarrow> uuid \<Rightarrow> module_issue option" where
  "first_module db iid = first (filter (\<lambda>m. mi_issue_id m = iid) (module_issues db))"

text \<open>
  The dictionary \<^verbatim>\<open>module_aggregates\<close>, in insertion order: the entry of a module is
  created with zero totals and its name when the module is first met, and the item's
  totals are added to it.
\<close>

fun aggregate_module ::
  "uuid \<Rightarrow> string \<Rightarrow> int \<Rightarrow> nat \<Rightarrow> (uuid \<times> string) group_row list
     \<Rightarrow> (uuid \<times> string) group_row list" where
  "aggregate_module m name s c [] =
     [\<lparr>group_key = (m, name), total_seconds = 0 + s, entry_count = 0 + c\<rparr>]"
| "aggregate_module m name s c (agg # aggs) =
     (if fst (group_key agg) = m
      then agg\<lparr>total_seconds := total_seconds agg + s, entry_count := entry_count agg + c\<rparr> # aggs
      else agg # aggregate_module m name s c aggs)"

text \<open>
  One pass of the loop \<^verbatim>\<open>for item in report_data\<close>: an item whose issue has no module
  (\<^verbatim>\<open>module_id\<close> None) is skipped.
\<close>

definition module_step ::
  "database \<Rightarrow> (uuid \<times> string) group_row list \<Rightarrow> (uuid \<times> uuid) group_row
     \<Rightarrow> (uuid \<times> string) group_row list" where
  "module_step db aggs item =
     (case first_module db (fst (group_key item)) of
        None \<Rightarrow> aggs
      | Some module_issue \<Rightarrow>
          aggregate_module (mi_module_id module_issue) (mi_module_name module_issue)
            (total_seconds item) (entry_count item) aggs)"

definition module_aggregates ::
  "database \<Rightarrow> (uuid \<times> uuid) group_row list \<Rightarrow> (uuid \<times> string) group_row list" where
  "module_aggregates db report_data = foldl (module_step db) [] report_data"

text \<open>The base queryset of the report and its two optional filters.\<close>

definition report_queryset :: "database \<Rightarrow> report_query \<Rightarrow> slug \<Rightarrow> time_entry list" where
  "report_queryset db q sl =
     (let queryset = filter (\<lambda>e. te_workspace e = sl \<and> ended_at e \<noteq> None) (time_entries db);
          queryset = (case q_project_id q of
                        None \<Rightarrow> queryset
                      | Some p \<Rightarrow> filter (\<lambda>e. te_project e = p) queryset)
      in (case q_user_id q of
            None \<Rightarrow> queryset
          | Some u \<Rightarrow> filter (\<lambda>e. te_user e = u) queryset))"

text \<open>The four branches of the report, on the filtered queryset.\<close>

definition report_rows :: "database \<Rightarrow> string \<Rightarrow> time_entry list \<Rightarrow> report_data" where
  "report_rows db group_by queryset =
     (if group_by = ''user''
      then UserReport (order_by_total_desc (values_annotate te_user queryset))
      else if group_by = ''work_item''
      then WorkItemReport
             (order_by_total_desc (values_annotate (\<lambda>e. (te_issue e, te_project e)) queryset))
      else if group_by = ''project''
      then ProjectReport (order_by_total_desc (values_annotate te_project queryset))
      else ModuleReport
             (order_by_total_desc
                (module_aggregates db
                   (values_annotate (\<lambda>e. (te_issue e, te_project e)) queryset))))"

text \<open>\<^verbatim>\<open>TimeEntryReportsEndpoint.get\<close>.\<close>

definition TimeEntryReportsEndpoint_get ::
  "(string \<Rightarrow> int option) \<Rightarrow> database \<Rightarrow> report_query \<Rightarrow> slug \<Rightarrow> response" where
  "TimeEntryReportsEndpoint_get strptime db q sl =
     (let group_by = (case q_group_by q of None \<Rightarrow> ''user'' | Some g \<Rightarrow> g)
      in if group_by \<notin> set [''user'', ''work_item'', ''project'', ''module'']
         then (400, Error ''group_by must be one of: user, work_item, project, module'')
         else
          (case date_filter strptime (q_from q) (\<lambda>d from_date_obj. d \<ge> from_date_obj)
                  (report_queryset db q sl) of
             None \<Rightarrow> (400, Error ''Invalid from date format. Use YYYY-MM-DD'')
           | Some queryset \<Rightarrow>
              (case date_filter strptime (q_to q) (\<lambda>d to_date_obj. d \<le> to_date_obj) queryset of
                 None \<Rightarrow> (400, Error ''Invalid to date format. Use YYYY-MM-DD'')
               | Some queryset \<Rightarrow>
                  (200, Report group_by (q_from q) (q_to q) (report_rows db group_by queryset)))))"

section \<open>What a report counts\<close>

text \<open>
  The conditions that the report's queryset puts on a row, collected in one predicate:
  the workspace, \<^verbatim>\<open>ended_at\<close> set, the optional project and user, and the two optional
  dates compared with the day of \<^verbatim>\<open>created_at\<close>. The queryset of the view is compared
  with it below.
\<close>

definition date_matches ::
  "(string \<Rightarrow> int option) \<Rightarrow> string option \<Rightarrow> (int \<Rightarrow> int \<Rightarrow> bool) \<Rightarrow> time_entry \<Rightarrow> bool" where
  "date_matches strptime param cmp e =
     (case param of
        None \<Rightarrow> True
      | Some str \<Rightarrow>
          str = [] \<or>
          (case strptime str of None \<Rightarrow> False | Some d \<Rightarrow> cmp (date_of (created_at e)) d))"

definition report_matches ::
  "(string \<Rightarrow> int option) \<Rightarrow> report_query \<Rightarrow> slug \<Rightarrow> time_entry \<Rightarrow> bool" where
  "report_matches strptime q sl e \<longleftrightarrow>
     te_workspace e = sl \<and> ended_at e \<noteq> None \<and>
     (case q_project_id q of None \<Rightarrow> True | Some p \<Rightarrow> te_project e = p) \<and>
     (case q_user_id q of None \<Rightarrow> True | Some u \<Rightarrow> te_user e = u) \<and>
     date_matches strptime (q_from q) (\<lambda>d from_date_obj. d \<ge> from_date_obj) e \<and>
     date_matches strptime (q_to q) (\<lambda>d to_date_obj. d \<le> to_date_obj) e"

text \<open>A date parameter that does not make the view answer 400: absent, empty or parsed.\<close>

definition date_ok :: "(string \<Rightarrow> int option) \<Rightarrow> string option \<Rightarrow> bool" where
  "date_ok strptime param =
     (case param of None \<Rightarrow> True | Some str \<Rightarrow> str = [] \<or> strptime str \<noteq> None)"

text \<open>The module that the module report books an issue's time on: that of \<open>first_module\<close>.\<close>

definition module_of :: "database \<Rightarrow> uuid \<Rightarrow> uuid option" where
  "module_of db iid = map_option mi_module_id (first_module db iid)"

section \<open>The invariant on durations\<close>

text \<open>Every stored row has a non-negative \<^verbatim>\<open>duration_seconds\<close>.\<close>

definition durations_non_negative :: "database \<Rightarrow> bool" where
  "durations_non_negative db = list_all (\<lambda>e. 0 \<le> duration_seconds e) (time_entries db)"

section \<open>Example data\<close>

text \<open>
  A workspace with one project and two issues. User 7 has a running timer on issue 10,
  started on 2024-01-01 at 10:00:00.
\<close>

definition demo_project :: project where
  "demo_project = \<lparr>project_id = 1, is_time_tracking_enabled = True\<rparr>"

definition demo_issue_a :: issue where
  "demo_issue_a = \<lparr>issue_id = 10, issue_project = 1, issue_workspace = ''acme''\<rparr>"

definition demo_issue_b :: issue where
  "demo_issue_b = \<lparr>issue_id = 11, issue_project = 1, issue_workspace = ''acme''\<rparr>"

definition demo_timer_a :: time_entry where
  "demo_timer_a =
     \<lparr>te_id = 100, te_workspace = ''acme'', te_project = 1, te_issue = 10, te_user = 7,
      started_at = Some (at_time 19723 10 0 0), ended_at = None, duration_seconds = 0,
      source = TIMER, te_note = Some [], is_billable = False,
      created_at = at_time 19723 10 0 0\<rparr>"

definition demo_db :: database where
  "demo_db =
     \<lparr>projects = [demo_project], issues = [demo_issue_a, demo_issue_b],
      time_entries = [demo_timer_a], module_issues = [], users = [], admins = []\<rparr>"

text \<open>The same database with time tracking switched off for the project.\<close>

definition demo_db_disabled :: database where
  "demo_db_disabled =
     demo_db\<lparr>projects := [demo_project\<lparr>is_time_tracking_enabled := False\<rparr>]\<rparr>"

text \<open>An empty timer start request.\<close>

definition empty_request :: timer_request where
  "empty_request = \<lparr>tr_note = Absent, tr_is_billable = Absent\<rparr>"

text \<open>
  A create payload that names the source TIMER and gives neither a duration nor a start,
  for issue 11.
\<close>

definition timer_payload :: create_payload where
  "timer_payload =
     \<lparr>p_issue_id = Some 11, p_duration_seconds = None, p_started_at = None,
      p_ended_at = None, p_source = Some TIMER, p_note = None, p_is_billable = None\<rparr>"

text \<open>
  The timer of user 7 on issue 10 once stopped at 11:30:00, in a database of its own,
  and an update that gives a duration of one hour and nothing else.
\<close>

definition demo_stopped_a :: time_entry where
  "demo_stopped_a =
     demo_timer_a\<lparr>ended_at := Some (at_time 19723 11 30 0), duration_seconds := 5400\<rparr>"

definition demo_db_stopped :: database where
  "demo_db_stopped = demo_db\<lparr>time_entries := [demo_stopped_a]\<rparr>"

definition override_payload :: update_data where
  "override_payload =
     \<lparr>u_duration_seconds = Given 3600, u_started_at = Absent, u_ended_at = Absent,
      u_note = Absent, u_is_billable = Absent\<rparr>"

text \<open>
  A create payload with a duration of ten minutes and a start at 09:00:00 but no end, for
  issue 11: the stored row is a MANUAL entry with \<^verbatim>\<open>started_at\<close> set and \<^verbatim>\<open>ended_at\<close>
  null. \<open>demo_db_manual\<close> is the example database after user 7 has posted it.
\<close>

definition open_manual_payload :: create_payload where
  "open_manual_payload =
     \<lparr>p_issue_id = Some 11, p_duration_seconds = Some 600,
      p_started_at = Some (at_time 19723 9 0 0), p_ended_at = None, p_source = None,
      p_note = None, p_is_billable = None\<rparr>"

definition demo_manual_b :: time_entry where
  "demo_manual_b =
     \<lparr>te_id = 102, te_workspace = ''acme'', te_project = 1, te_issue = 11, te_user = 7,
      started_at = Some (at_time 19723 9 0 0), ended_at = None, duration_seconds = 600,
      source = MANUAL, te_note = None, is_billable = False,
      created_at = at_time 19723 10 15 0\<rparr>"

definition demo_db_manual :: database where
  "demo_db_manual = demo_db\<lparr>time_entries := [demo_manual_b, demo_timer_a]\<rparr>"

text \<open>
  A second MANUAL entry of user 7 on issue 11 with a start and no end, created later
  (primary key 103), and the database that holds both.
\<close>

definition demo_manual_b2 :: time_entry where
  "demo_manual_b2 =
     demo_manual_b\<lparr>te_id := 103, started_at := Some (at_time 19723 9 30 0),
       created_at := at_time 19723 10 20 0\<rparr>"

definition demo_db_two_manual :: database where
  "demo_db_two_manual = demo_db\<lparr>time_entries := [demo_manual_b2, demo_manual_b]\<rparr>"

text \<open>The payload of the specification's example: 10:00:00 to 11:30:00, no duration.\<close>

definition range_data :: "TimeEntrySource \<Rightarrow> entry_data" where
  "range_data src =
     \<lparr>d_source = Some src, d_started_at = Some (at_time 19723 10 0 0),
      d_ended_at = Some (at_time 19723 11 30 0), d_duration_seconds = None\<rparr>"

definition range_payload :: create_payload where
  "range_payload =
     \<lparr>p_issue_id = Some 11, p_duration_seconds = None,
      p_started_at = Some (at_time 19723 10 0 0), p_ended_at = Some (at_time 19723 11 30 0),
      p_source = Some MANUAL, p_note = None, p_is_billable = None\<rparr>"

text \<open>
  The database of the report examples. Users 1 and 2 have three completed entries, of
  3600, 1800 and 900 seconds, on the issues 10, 12 and 11; user 2 also has an entry on
  issue 11 without \<^verbatim>\<open>ended_at\<close>. Issue 10 is linked to the modules 50 and 51 (in this
  order), issue 11 to module 51 and issue 12 to none.
\<close>

definition completed_entry :: "uuid \<Rightarrow> uuid \<Rightarrow> uuid \<Rightarrow> int \<Rightarrow> time_entry" where
  "completed_entry k u i d =
     \<lparr>te_id = k, te_workspace = ''acme'', te_project = 1, te_issue = i, te_user = u,
      started_at = None, ended_at = Some (at_time 19723 17 0 0), duration_seconds = d,
      source = MANUAL, te_note = None, is_billable = False,
      created_at = at_time 19723 17 0 0\<rparr>"

definition report_db :: database where
  "report_db =
     \<lparr>projects = [demo_project],
      issues = [demo_issue_a, demo_issue_b,
                \<lparr>issue_id = 12, issue_project = 1, issue_workspace = ''acme''\<rparr>],
      time_entries =
        [(completed_entry 203 2 11 600)\<lparr>ended_at := None\<rparr>,
         completed_entry 202 2 11 900,
         completed_entry 201 1 12 1800,
         completed_entry 200 1 10 3600],
      module_issues =
        [\<lparr>mi_issue_id = 10, mi_module_id = 50, mi_module_name = ''Alpha''\<rparr>,
         \<lparr>mi_issue_id = 10, mi_module_id = 51, mi_module_name = ''Beta''\<rparr>,
         \<lparr>mi_issue_id = 11, mi_module_id = 51, mi_module_name = ''Beta''\<rparr>],
      users = [], admins = []\<rparr>"

definition report_by :: "string \<Rightarrow> report_query" where
  "report_by g =
     \<lparr>q_group_by = Some g, q_from = None, q_to = None, q_project_id = None,
      q_user_id = None\<rparr>"

text \<open>
  A create payload whose start, 12:00:00, is after its end, 10:00:00, with a duration of
  ten minutes, for issue 11, and the row that the create endpoint stores for it when
  user 7 posts it at 12:30:00 with primary key 104.
\<close>

definition inverted_payload :: create_payload where
  "inverted_payload =
     \<lparr>p_issue_id = Some 11, p_duration_seconds = Some 600,
      p_started_at = Some (at_time 19723 12 0 0), p_ended_at = Some (at_time 19723 10 0 0),
      p_source = None, p_note = None, p_is_billable = None\<rparr>"

definition demo_inverted :: time_entry where
  "demo_inverted =
     \<lparr>te_id = 104, te_workspace = ''acme'', te_project = 1, te_issue = 11, te_user = 7,
      started_at = Some (at_time 19723 12 0 0), ended_at = Some (at_time 19723 10 0 0),
      duration_seconds = 600, source = MANUAL, te_note = None, is_billable = False,
      created_at = at_time 19723 12 30 0\<rparr>"

definition demo_db_inverted :: database where
  "demo_db_inverted = demo_db\<lparr>time_entries := [demo_inverted, demo_timer_a]\<rparr>"

text \<open>
  A timer of user 7 on issue 10 that was started on 1950-01-01 (day -7305), in a
  database of its own: at 11:30:00 on 2024-01-01 it has run for 2335260600 seconds.
\<close>

definition demo_old_timer :: time_entry where
  "demo_old_timer = demo_timer_a\<lparr>started_at := Some (at_time (- 7305) 0 0 0)\<rparr>"

definition demo_db_old :: database where
  "demo_db_old = demo_db\<lparr>time_entries := [demo_old_timer]\<rparr>"

section \<open>Auxiliary facts\<close>

subsection \<open>Elapsed seconds\<close>

declare bit_length.simps [simp del]

lemma bit_length_le: "n < 2 ^ j \<Longrightarrow> bit_length n \<le> j"
proof (induction j arbitrary: n)
  case 0
  then show ?case by (simp add: bit_length.simps)
next
  case (Suc j)
  show ?case
  proof (cases "n = 0")
    case True
    then show ?thesis by (simp add: bit_length.simps)
  next
    case False
    from Suc.prems have "n div 2 < 2 ^ j" by simp
    then have "bit_length (n div 2) \<le> j" by (rule Suc.IH)
    with False show ?thesis by (simp add: bit_length.simps [of n])
  qed
qed

lemma bit_length_0_iff: "bit_length n = 0 \<longleftrightarrow> n = 0"
  by (simp add: bit_length.simps [of n])

lemma round_half_even_bounds:
  "p div q \<le> round_half_even p q \<and> round_half_even p q \<le> p div q + 1"
  by (simp add: round_half_even_def Let_def)

lemma round_half_even_down: "2 * (p mod q) < q \<Longrightarrow> round_half_even p q = p div q"
  by (simp add: round_half_even_def Let_def)

lemma round_half_even_nonneg: "0 \<le> p \<Longrightarrow> 0 < q \<Longrightarrow> 0 \<le> round_half_even p q"
proof -
  assume "0 \<le> p" "0 < q"
  then have "0 \<le> p div q" by (simp add: pos_imp_zdiv_nonneg_iff)
  with round_half_even_bounds [of p q] show ?thesis by linarith
qed

lemma scaled_round_div:
  fixes n K q :: int
  assumes n: "0 \<le> n" and q: "0 < q" and K: "0 < K" and big: "q < 2 * K"
  shows "round_half_even (n * K) q div K = n div q"
proof -
  define s where "s = n div q"
  define f where "f = n mod q"
  define c where "c = (f * K) div q"
  define r where "r = (f * K) mod q"
  have nf: "n = s * q + f" and f0: "0 \<le> f" and fq: "f < q"
    using q by (simp_all add: s_def f_def)
  have a: "f * K = c * q + r" and r0: "0 \<le> r" and rq: "r < q"
    using q by (simp_all add: c_def r_def)
  have c0: "0 \<le> c"
    unfolding c_def using f0 K q by (simp add: pos_imp_zdiv_nonneg_iff)
  have "f * K < q * K" using fq K by simp
  then have "c * q + r < K * q" using a by (simp add: mult.commute)
  with r0 have "c * q < K * q" by linarith
  with q have cK: "c < K" by simp
  have P: "n * K = (s * K + c) * q + r"
    using nf a by (simp add: algebra_simps)
  have Pdiv: "(n * K) div q = s * K + c"
    unfolding P using r0 rq q by simp
  have Pmod: "(n * K) mod q = r"
    unfolding P using r0 rq q by simp
  have lo: "s * K + c \<le> round_half_even (n * K) q"
    using round_half_even_bounds [of "n * K" q] Pdiv by simp
  have hi: "round_half_even (n * K) q \<le> s * K + (K - 1)"
  proof (cases "c = K - 1")
    case True
    have "r = f * K - (K - 1) * q" using a True by simp
    also have "\<dots> = q - (q - f) * K" by (simp add: algebra_simps)
    also have "\<dots> \<le> q - K"
    proof -
      have "1 \<le> q - f" using fq by simp
      then have "1 * K \<le> (q - f) * K" using K by (intro mult_right_mono) simp_all
      then show ?thesis by simp
    qed
    finally have "2 * r < q" using big by linarith
    then have "round_half_even (n * K) q = s * K + c"
      using round_half_even_down [of "n * K" q] Pdiv Pmod by simp
    with True show ?thesis by simp
  next
    case False
    with cK have "c + 1 \<le> K - 1" by linarith
    with round_half_even_bounds [of "n * K" q] Pdiv show ?thesis by linarith
  qed
  define m where "m = round_half_even (n * K) q - s * K"
  have m: "round_half_even (n * K) q = s * K + m" and "0 \<le> m" and "m < K"
    using lo hi c0 by (simp_all add: m_def)
  then have "round_half_even (n * K) q div K = s"
    using K by simp
  then show ?thesis by (simp add: s_def)
qed

lemma int_of_true_divide_exact:
  assumes "0 \<le> n" and "n < 17179869184000000"
  shows "int_of_true_divide n = n div 1000000"
proof (cases "n div 1000000 = 0")
  case True
  then show ?thesis by (simp add: int_of_true_divide_def bit_length_0_iff)
next
  case False
  define b where "b = bit_length (nat (n div 1000000))"
  have "n div 1000000 < 17179869184" using assms(2) by simp
  moreover have "0 \<le> n div 1000000" using assms(1) by simp
  ultimately have "nat (n div 1000000) < 2 ^ 34" by simp
  then have b34: "b \<le> 34" unfolding b_def by (rule bit_length_le)
  have b0: "b \<noteq> 0"
    using False \<open>0 \<le> n div 1000000\<close> by (simp add: b_def bit_length_0_iff)
  have "(2::int) ^ 19 \<le> 2 ^ (53 - b)"
    using b34 by (intro power_increasing) simp_all
  then have big: "(1000000::int) < 2 * 2 ^ (53 - b)" by simp
  have "round_half_even (n * 2 ^ (53 - b)) 1000000 div 2 ^ (53 - b) = n div 1000000"
    by (rule scaled_round_div [OF assms(1) _ _ big]) simp_all
  with b0 b34 show ?thesis
    by (simp add: int_of_true_divide_def b_def [symmetric])
qed

lemma int_of_true_divide_nonneg: "0 \<le> n \<Longrightarrow> 0 \<le> int_of_true_divide n"
proof -
  assume n: "0 \<le> n"
  define b where "b = bit_length (nat (n div 1000000))"
  have 1: "0 \<le> round_half_even (n * 2 ^ (53 - b)) 1000000 div 2 ^ (53 - b)"
    using n by (simp add: pos_imp_zdiv_nonneg_iff round_half_even_nonneg)
  have 2: "0 \<le> round_half_even n (1000000 * 2 ^ (b - 53)) * 2 ^ (b - 53)"
    using n by (simp add: round_half_even_nonneg)
  from 1 2 show ?thesis
    by (simp add: int_of_true_divide_def b_def [symmetric])
qed

lemma elapsed_nonneg: "0 \<le> elapsed_seconds s e"
  by (simp add: elapsed_seconds_def)

lemma elapsed_exact:
  assumes "e - s < 17179869184000000"
  shows "elapsed_seconds s e = max 0 ((e - s) div 1000000)"
proof (cases "0 \<le> e - s")
  case True
  then show ?thesis
    using int_of_true_divide_exact [OF True assms]
    by (simp add: elapsed_seconds_def int_total_seconds_def)
next
  case False
  then have "0 \<le> int_of_true_divide (- (e - s))"
    by (intro int_of_true_divide_nonneg) simp
  moreover have "(e - s) div 1000000 < 0" using False by simp
  ultimately show ?thesis
    using False by (simp add: elapsed_seconds_def int_total_seconds_def max_def)
qed

lemma elapsed_floor:
  assumes "e - s < 17179869184000000"
  shows "elapsed_seconds s e = max 0 \<lfloor>real_of_int (e - s) / 1000000\<rfloor>"
proof -
  have "\<lfloor>real_of_int (e - s) / 1000000\<rfloor> = (e - s) div 1000000"
    using floor_divide_of_int_eq [of "e - s" 1000000, where ?'a = real] by simp
  then show ?thesis
    by (simp add: elapsed_exact [OF assms])
qed

lemma demo_elapsed: "elapsed_seconds (at_time 19723 10 0 0) (at_time 19723 11 30 0) = 5400"
  by (subst elapsed_exact) (simp_all add: at_time_def)

lemma bit_length_2_34: "bit_length 17179869184 = 35"
  by (simp add: bit_length.simps)

lemma elapsed_2_34: "elapsed_seconds 0 17179869184999999 = 17179869185"
  by (simp add: elapsed_seconds_def int_total_seconds_def int_of_true_divide_def
      bit_length_2_34 round_half_even_def Let_def)

subsection \<open>Lookups\<close>

lemma get_issue_Some:
  "get_issue db iid pid sl = Some iss \<Longrightarrow>
     issue_id iss = iid \<and> issue_project iss = pid \<and> issue_workspace iss = sl"
  by (auto simp: get_issue_def find_Some_iff)

lemma first_None_iff: "first xs = None \<longleftrightarrow> xs = []"
  by (cases xs) (simp_all add: first_def)

lemma first_Some_mem: "first xs = Some x \<Longrightarrow> x \<in> set xs"
  by (cases xs) (simp_all add: first_def)

lemma first_filter_None: "first (filter P xs) = None \<longleftrightarrow> (\<forall>x\<in>set xs. \<not> P x)"
  by (simp add: first_None_iff filter_empty_conv)

lemma first_filter_Some: "first (filter P xs) = Some x \<Longrightarrow> x \<in> set xs \<and> P x"
proof -
  assume "first (filter P xs) = Some x"
  then have "x \<in> set (filter P xs)"
    by (rule first_Some_mem)
  then show ?thesis by simp
qed

lemma first_filter_member: "x \<in> set xs \<Longrightarrow> P x \<Longrightarrow> \<exists>y. first (filter P xs) = Some y"
proof -
  assume "x \<in> set xs" "P x"
  then have "filter P xs \<noteq> []" by (auto simp: filter_empty_conv)
  then show ?thesis by (cases "filter P xs") (simp_all add: first_def)
qed

subsection \<open>Writing rows\<close>

lemma check_row_None_iff:
  "check_row e = None \<longleftrightarrow> 0 \<le> duration_seconds e \<and> duration_seconds e \<le> 2147483647"
  by (auto simp: check_row_def)

lemma check_row_DataError_iff: "check_row e = Some DataError \<longleftrightarrow> 2147483647 < duration_seconds e"
  by (auto simp: check_row_def)

lemma save_ok:
  "check_row e = None \<Longrightarrow> save e es = Inr (map (\<lambda>x. if te_id x = te_id e then e else x) es)"
  by (simp add: save_def)

lemma save_Inr:
  "save e es = Inr saved \<Longrightarrow>
     check_row e = None \<and> saved = map (\<lambda>x. if te_id x = te_id e then e else x) es"
  by (auto simp: save_def split: option.splits)

lemma objects_create_ok: "check_row e = None \<Longrightarrow> objects_create e es = Inr (e # es)"
  by (simp add: objects_create_def)

lemma objects_create_Inr:
  "objects_create e es = Inr created \<Longrightarrow> check_row e = None \<and> created = e # es"
  by (auto simp: objects_create_def split: option.splits)

lemma stop_timer_id: "te_id (stop_timer now t) = te_id t"
  by (simp add: stop_timer_def)

lemma stop_timer_started:
  "started_at t = Some s \<Longrightarrow>
   stop_timer now t = t\<lparr>ended_at := Some now, duration_seconds := elapsed_seconds s now\<rparr>"
  by (simp add: stop_timer_def)

lemma check_row_stop_timer:
  "started_at t = Some s \<Longrightarrow>
   check_row (stop_timer now t) =
     (if 2147483647 < elapsed_seconds s now then Some DataError else None)"
  using elapsed_nonneg [of s now] by (simp add: stop_timer_started check_row_def)

lemma stop_all_ids:
  assumes "distinct (map te_id ts)"
    and "\<forall>t\<in>set ts. \<forall>x\<in>set es. te_id x = te_id t \<longrightarrow> x = t"
    and "\<forall>t\<in>set ts. check_row (stop_timer now t) = None"
  shows "stop_all now ts es =
         Inr (map (\<lambda>x. if te_id x \<in> te_id ` set ts then stop_timer now x else x) es)"
  using assms
proof (induction ts arbitrary: es)
  case Nil
  then show ?case by simp
next
  case (Cons t ts)
  let ?es = "map (\<lambda>x. if te_id x = te_id (stop_timer now t) then stop_timer now t else x) es"
  have sv: "save (stop_timer now t) es = Inr ?es"
    using Cons.prems(3) by (simp add: save_ok)
  have fresh: "te_id t \<notin> te_id ` set ts"
    using Cons.prems(1) by simp
  have keep: "\<forall>t'\<in>set ts. \<forall>x\<in>set ?es. te_id x = te_id t' \<longrightarrow> x = t'"
  proof (intro ballI impI)
    fix t' x
    assume t': "t' \<in> set ts" and x: "x \<in> set ?es" and eq: "te_id x = te_id t'"
    from x obtain y where y: "y \<in> set es"
      and xy: "x = (if te_id y = te_id (stop_timer now t) then stop_timer now t else y)"
      by auto
    have "te_id y \<noteq> te_id t"
    proof
      assume "te_id y = te_id t"
      with xy have "te_id x = te_id t" by (simp add: stop_timer_id)
      with eq t' fresh show False by force
    qed
    with xy have "x = y" by (simp add: stop_timer_id)
    with y eq t' Cons.prems(2) show "x = t'" by simp
  qed
  have ok: "\<forall>t\<in>set ts. check_row (stop_timer now t) = None"
    using Cons.prems(3) by simp
  have "stop_all now (t # ts) es = stop_all now ts ?es" by (simp add: sv)
  also have "\<dots> = Inr (map (\<lambda>x. if te_id x \<in> te_id ` set ts then stop_timer now x else x) ?es)"
    using Cons.IH [OF _ keep ok] Cons.prems(1) by simp
  also have "map (\<lambda>x. if te_id x \<in> te_id ` set ts then stop_timer now x else x) ?es =
      map (\<lambda>x. if te_id x \<in> te_id ` set (t # ts) then stop_timer now x else x) es"
  proof -
    have "\<And>y. y \<in> set es \<Longrightarrow>
        (let x = (if te_id y = te_id (stop_timer now t) then stop_timer now t else y)
         in if te_id x \<in> te_id ` set ts then stop_timer now x else x) =
        (if te_id y \<in> te_id ` set (t # ts) then stop_timer now y else y)"
    proof -
      fix y assume y: "y \<in> set es"
      show "(let x = (if te_id y = te_id (stop_timer now t) then stop_timer now t else y)
         in if te_id x \<in> te_id ` set ts then stop_timer now x else x) =
        (if te_id y \<in> te_id ` set (t # ts) then stop_timer now y else y)"
      proof (cases "te_id y = te_id t")
        case True
        with y Cons.prems(2) have "y = t" by simp
        with fresh show ?thesis by (simp add: stop_timer_id)
      next
        case False
        then show ?thesis by (simp add: stop_timer_id)
      qed
    qed
    then show ?thesis by (simp add: Let_def)
  qed
  finally show ?case .
qed

lemma stop_all_filter:
  assumes "distinct (map te_id es)"
    and "\<forall>x\<in>set es. P x \<longrightarrow> check_row (stop_timer now x) = None"
  shows "stop_all now (filter P es) es =
         Inr (map (\<lambda>x. if P x then stop_timer now x else x) es)"
proof -
  have d: "distinct (map te_id (filter P es))"
    using assms(1) by (simp add: distinct_map_filter)
  have inj: "\<And>x y. x \<in> set es \<Longrightarrow> y \<in> set es \<Longrightarrow> te_id x = te_id y \<Longrightarrow> x = y"
    using assms(1) by (meson distinct_map inj_onD)
  have u: "\<forall>t\<in>set (filter P es). \<forall>x\<in>set es. te_id x = te_id t \<longrightarrow> x = t"
    using inj by auto
  have c: "\<forall>t\<in>set (filter P es). check_row (stop_timer now t) = None"
    using assms(2) by simp
  have "\<And>x. x \<in> set es \<Longrightarrow> (te_id x \<in> te_id ` set (filter P es)) = P x"
    using inj by auto
  then show ?thesis
    unfolding stop_all_ids [OF d u c] by simp
qed

subsection \<open>Starting a timer\<close>

lemma check_row_new_timer: "check_row (new_timer iss u now new_id req) = None"
  by (simp add: check_row_def new_timer_def)

lemma post_started:
  assumes "check_time_tracking_enabled db pid = None"
    and "get_issue db iid pid sl = Some iss"
    and "\<forall>e\<in>set (time_entries db). \<not> active_timer_filter iid u e"
    and "distinct (map te_id (time_entries db))"
    and "\<forall>x\<in>set (time_entries db).
           other_active_filter iid u x \<longrightarrow> check_row (stop_timer now x) = None"
  shows "TimeEntryTimerEndpoint_post db now new_id u req sl pid iid =
           ((201, Entry (to_representation (new_timer iss u now new_id req))),
            db\<lparr>time_entries := new_timer iss u now new_id req #
                 map (\<lambda>x. if other_active_filter iid u x then stop_timer now x else x)
                   (time_entries db)\<rparr>)"
proof -
  have "first (filter (active_timer_filter iid u) (time_entries db)) = None"
    using assms(3) first_filter_None [of "active_timer_filter iid u" "time_entries db"]
    by blast
  then show ?thesis
    using assms(1,2) stop_all_filter [OF assms(4,5)]
    by (simp add: TimeEntryTimerEndpoint_post_def Let_def objects_create_ok check_row_new_timer)
qed

lemma post_conflict:
  assumes "check_time_tracking_enabled db pid = None"
    and "get_issue db iid pid sl = Some iss"
    and "e \<in> set (time_entries db)" and "active_timer_filter iid u e"
  shows "TimeEntryTimerEndpoint_post db now new_id u req sl pid iid =
           ((400, Error ''You already have an active timer on this issue''), db)"
proof -
  obtain y where "first (filter (active_timer_filter iid u) (time_entries db)) = Some y"
    using first_filter_member [of e "time_entries db" "active_timer_filter iid u"] assms(3,4)
    by blast
  then show ?thesis
    using assms(1,2) by (simp add: TimeEntryTimerEndpoint_post_def)
qed

subsection \<open>Stopping a timer\<close>

lemma delete_stops:
  assumes "check_time_tracking_enabled db pid = None"
    and "first (filter (active_timer_filter iid u) (time_entries db)) = Some timer"
  shows "\<exists>s. started_at timer = Some s \<and>
           (elapsed_seconds s now \<le> 2147483647 \<longrightarrow>
              TimeEntryTimerEndpoint_delete db now u sl pid iid =
                ((200, Entry (to_representation
                    (timer\<lparr>ended_at := Some now, duration_seconds := elapsed_seconds s now\<rparr>))),
                 db\<lparr>time_entries :=
                   map (\<lambda>x. if te_id x = te_id timer
                            then timer\<lparr>ended_at := Some now,
                                   duration_seconds := elapsed_seconds s now\<rparr>
                            else x)
                     (time_entries db)\<rparr>)) \<and>
           (2147483647 < elapsed_seconds s now \<longrightarrow>
              TimeEntryTimerEndpoint_delete db now u sl pid iid = ((500, Raised DataError), db))"
proof -
  from assms(2) have "active_timer_filter iid u timer" by (auto dest: first_filter_Some)
  then obtain s where s: "started_at timer = Some s"
    by (auto simp: active_timer_filter_def)
  have st: "stop_timer now timer =
      timer\<lparr>ended_at := Some now, duration_seconds := elapsed_seconds s now\<rparr>"
    using s by (rule stop_timer_started)
  have c: "check_row (stop_timer now timer) =
     (if 2147483647 < elapsed_seconds s now then Some DataError else None)"
    using s by (rule check_row_stop_timer)
  have ok: "elapsed_seconds s now \<le> 2147483647 \<longrightarrow>
      TimeEntryTimerEndpoint_delete db now u sl pid iid =
                ((200, Entry (to_representation (stop_timer now timer))),
                 db\<lparr>time_entries :=
                   map (\<lambda>x. if te_id x = te_id timer then stop_timer now timer else x)
                     (time_entries db)\<rparr>)"
    using assms c
    by (simp add: TimeEntryTimerEndpoint_delete_def Let_def save_def stop_timer_id)
  have bad: "2147483647 < elapsed_seconds s now \<longrightarrow>
      TimeEntryTimerEndpoint_delete db now u sl pid iid = ((500, Raised DataError), db)"
    using assms c
    by (simp add: TimeEntryTimerEndpoint_delete_def Let_def save_def)
  from s ok bad show ?thesis unfolding st by blast
qed

subsection \<open>The example data\<close>

lemmas demo_defs = demo_project_def demo_issue_a_def demo_issue_b_def demo_timer_a_def
  demo_db_def demo_db_disabled_def empty_request_def timer_payload_def demo_stopped_a_def
  demo_db_stopped_def override_payload_def open_manual_payload_def demo_manual_b_def
  demo_db_manual_def demo_manual_b2_def demo_db_two_manual_def range_data_def range_payload_def
  inverted_payload_def demo_inverted_def demo_db_inverted_def demo_old_timer_def demo_db_old_def

lemma demo_enabled: "check_time_tracking_enabled demo_db 1 = None"
  by (simp add: check_time_tracking_enabled_def demo_defs)

lemma demo_get_issue_a: "get_issue demo_db 10 1 ''acme'' = Some demo_issue_a"
  by (simp add: get_issue_def demo_defs)

lemma demo_get_issue_b: "get_issue demo_db 11 1 ''acme'' = Some demo_issue_b"
  by (simp add: get_issue_def demo_defs)

subsection \<open>Non-negative durations\<close>

lemma save_nonneg:
  assumes "list_all (\<lambda>e. 0 \<le> duration_seconds e) es" and "save e es = Inr saved"
  shows "list_all (\<lambda>e. 0 \<le> duration_seconds e) saved"
proof -
  from save_Inr [OF assms(2)] have c: "check_row e = None"
    and s: "saved = map (\<lambda>x. if te_id x = te_id e then e else x) es" by simp_all
  from c have "0 \<le> duration_seconds e" by (simp add: check_row_None_iff)
  with assms(1) show ?thesis unfolding s by (induction es) simp_all
qed

lemma stop_all_nonneg:
  assumes "list_all (\<lambda>e. 0 \<le> duration_seconds e) es"
  shows "case stop_all now ts es of
           Inl (exc, saved) \<Rightarrow> list_all (\<lambda>e. 0 \<le> duration_seconds e) saved
         | Inr stopped \<Rightarrow> list_all (\<lambda>e. 0 \<le> duration_seconds e) stopped"
  using assms
proof (induction ts arbitrary: es)
  case Nil
  then show ?case by simp
next
  case (Cons t ts)
  show ?case
  proof (cases "save (stop_timer now t) es")
    case (Inl exc)
    with Cons.prems show ?thesis by simp
  next
    case (Inr saved)
    with Cons.prems have "list_all (\<lambda>e. 0 \<le> duration_seconds e) saved"
      by (auto intro: save_nonneg)
    from Cons.IH [OF this] Inr show ?thesis by simp
  qed
qed

lemma filter_nonneg:
  "list_all (\<lambda>e. 0 \<le> duration_seconds e) es \<Longrightarrow>
   list_all (\<lambda>e. 0 \<le> duration_seconds (e::time_entry)) (filter P es)"
  by (induction es) simp_all

lemma post_nonneg:
  assumes "durations_non_negative db"
  shows "durations_non_negative (snd (TimeEntryTimerEndpoint_post db now new_id u req sl pid iid))"
proof -
  let ?ts = "filter (other_active_filter iid u) (time_entries db)"
  have n: "list_all (\<lambda>e. 0 \<le> duration_seconds e) (time_entries db)"
    using assms by (simp add: durations_non_negative_def)
  note s = stop_all_nonneg [OF n, of now ?ts]
  have z: "0 \<le> duration_seconds (new_timer iss u now new_id req)" for iss
    by (simp add: new_timer_def)
  show ?thesis
    using assms s z
    by (auto simp: TimeEntryTimerEndpoint_post_def durations_non_negative_def Let_def
        split: option.splits sum.splits dest!: objects_create_Inr)
qed

lemma delete_nonneg:
  assumes "durations_non_negative db"
  shows "durations_non_negative (snd (TimeEntryTimerEndpoint_delete db now u sl pid iid))"
  using assms
  by (auto simp: TimeEntryTimerEndpoint_delete_def durations_non_negative_def Let_def
      split: option.splits sum.splits intro: save_nonneg)

lemma create_nonneg:
  assumes "durations_non_negative db"
  shows "durations_non_negative (snd (TimeEntryViewSet_create db now new_id u payload sl pid iid))"
  using assms
  by (auto simp: TimeEntryViewSet_create_def durations_non_negative_def Let_def
      check_row_None_iff split: option.splits sum.splits dest!: objects_create_Inr)

lemma partial_update_nonneg:
  assumes "durations_non_negative db"
  shows "durations_non_negative
           (snd (TimeEntryViewSet_partial_update db u payload sl pid iid pk))"
  using assms
  by (auto simp: TimeEntryViewSet_partial_update_def durations_non_negative_def Let_def
      split: option.splits sum.splits intro: save_nonneg)

lemma destroy_nonneg:
  assumes "durations_non_negative db"
  shows "durations_non_negative (snd (TimeEntryViewSet_destroy db u sl pid iid pk))"
  using assms
  by (auto simp: TimeEntryViewSet_destroy_def durations_non_negative_def filter_nonneg
      split: option.splits)

lemma demo_first_timer:
  "first (filter (active_timer_filter 10 7) (time_entries demo_db)) = Some demo_timer_a"
  by (simp add: first_def active_timer_filter_def demo_defs)

lemma demo_nonneg: "durations_non_negative demo_db"
  by (simp add: durations_non_negative_def demo_defs)

subsection \<open>Looking an entry up\<close>

lemma get_entry_Some:
  "get_entry db sl pid iid pk = Some e \<Longrightarrow>
     e \<in> set (time_entries db) \<and> te_workspace e = sl \<and> te_project e = pid \<and>
     te_issue e = iid \<and> te_id e = pk"
  by (auto simp: get_entry_def find_Some_iff)

lemma find_replace:
  assumes "find P es = Some e" and "P e'" and "\<And>x. P x \<Longrightarrow> k x"
  shows "find P (map (\<lambda>x. if k x then e' else x) es) = Some e'"
  using assms(1)
proof (induction es)
  case Nil
  then show ?case by simp
next
  case (Cons x xs)
  show ?case
  proof (cases "k x")
    case True
    with assms(2) show ?thesis by simp
  next
    case False
    with assms(3) have "\<not> P x" by blast
    with Cons False show ?thesis by simp
  qed
qed

lemma get_entry_after_save:
  assumes "get_entry db sl pid iid pk = Some e"
    and "te_workspace e' = sl" and "te_project e' = pid" and "te_issue e' = iid"
    and "te_id e' = pk"
  shows "get_entry (db\<lparr>time_entries :=
            map (\<lambda>x. if te_id x = pk then e' else x) (time_entries db)\<rparr>) sl pid iid pk = Some e'"
proof -
  let ?P = "\<lambda>x. te_workspace x = sl \<and> te_project x = pid \<and> te_issue x = iid \<and> te_id x = pk"
  have "find ?P (time_entries db) = Some e"
    using assms(1) by (simp add: get_entry_def)
  then have "find ?P (map (\<lambda>x. if te_id x = pk then e' else x) (time_entries db)) = Some e'"
    by (rule find_replace) (use assms(2-5) in simp_all)
  then show ?thesis by (simp add: get_entry_def)
qed

subsection \<open>Active entries\<close>

lemma is_active_iff:
  "is_active (to_representation e) \<longleftrightarrow>
     started_at e \<noteq> None \<and> ended_at e = None \<and> source e = TIMER"
  by (simp add: to_representation_def time_entry.defs)

lemma demo_manual_enabled: "check_time_tracking_enabled demo_db_manual 1 = None"
  by (simp add: check_time_tracking_enabled_def demo_defs)

lemma demo_manual_get_issue_b: "get_issue demo_db_manual 11 1 ''acme'' = Some demo_issue_b"
  by (simp add: get_issue_def demo_defs)

lemma demo_two_enabled: "check_time_tracking_enabled demo_db_two_manual 1 = None"
  by (simp add: check_time_tracking_enabled_def demo_defs)

lemma demo_two_get_issue_b: "get_issue demo_db_two_manual 11 1 ''acme'' = Some demo_issue_b"
  by (simp add: get_issue_def demo_defs)

lemma demo_two_get_issue_a: "get_issue demo_db_two_manual 10 1 ''acme'' = Some demo_issue_a"
  by (simp add: get_issue_def demo_defs)

subsection \<open>Grouping\<close>

lemma annotate_row_keys:
  "set (map group_key (annotate_row k d gs)) = insert k (set (map group_key gs))"
  by (induction gs) auto

lemma annotate_row_distinct:
  "distinct (map group_key gs) \<Longrightarrow> distinct (map group_key (annotate_row k d gs))"
proof (induction gs)
  case Nil
  then show ?case by simp
next
  case (Cons g gs)
  have "set (map group_key (annotate_row k d gs)) = insert k (set (map group_key gs))"
    by (rule annotate_row_keys)
  with Cons show ?case by auto
qed

lemma annotate_row_total:
  "sum_list (map total_seconds (filter (\<lambda>g. P (group_key g)) (annotate_row k d gs))) =
   sum_list (map total_seconds (filter (\<lambda>g. P (group_key g)) gs)) + (if P k then d else 0)"
  by (induction gs) auto

lemma annotate_row_count:
  "sum_list (map entry_count (filter (\<lambda>g. P (group_key g)) (annotate_row k d gs))) =
   sum_list (map entry_count (filter (\<lambda>g. P (group_key g)) gs)) + (if P k then 1 else 0)"
  by (induction gs) auto

lemma foldl_annotate_keys:
  "set (map group_key (foldl (\<lambda>gs e. annotate_row (key e) (duration_seconds e) gs) acc qs)) =
   set (map group_key acc) \<union> key ` set qs"
proof (induction qs arbitrary: acc)
  case Nil
  then show ?case by simp
next
  case (Cons e qs)
  show ?case
    unfolding foldl_Cons Cons.IH annotate_row_keys by auto
qed

lemma foldl_annotate_distinct:
  "distinct (map group_key acc) \<Longrightarrow>
   distinct (map group_key (foldl (\<lambda>gs e. annotate_row (key e) (duration_seconds e) gs) acc qs))"
proof (induction qs arbitrary: acc)
  case Nil
  then show ?case by simp
next
  case (Cons e qs)
  from Cons.prems have "distinct (map group_key (annotate_row (key e) (duration_seconds e) acc))"
    by (rule annotate_row_distinct)
  then show ?case
    unfolding foldl_Cons by (rule Cons.IH)
qed

lemma foldl_annotate_total:
  "sum_list (map total_seconds (filter (\<lambda>g. P (group_key g))
       (foldl (\<lambda>gs e. annotate_row (key e) (duration_seconds e) gs) acc qs))) =
   sum_list (map total_seconds (filter (\<lambda>g. P (group_key g)) acc)) +
   sum_list (map duration_seconds (filter (\<lambda>e. P (key e)) qs))"
proof (induction qs arbitrary: acc)
  case Nil
  then show ?case by simp
next
  case (Cons e qs)
  show ?case
    unfolding foldl_Cons Cons.IH annotate_row_total by simp
qed

lemma foldl_annotate_count:
  "sum_list (map entry_count (filter (\<lambda>g. P (group_key g))
       (foldl (\<lambda>gs e. annotate_row (key e) (duration_seconds e) gs) acc qs))) =
   sum_list (map entry_count (filter (\<lambda>g. P (group_key g)) acc)) +
   length (filter (\<lambda>e. P (key e)) qs)"
proof (induction qs arbitrary: acc)
  case Nil
  then show ?case by simp
next
  case (Cons e qs)
  show ?case
    unfolding foldl_Cons Cons.IH annotate_row_count by simp
qed

lemma values_annotate_keys: "set (map group_key (values_annotate key qs)) = key ` set qs"
  unfolding values_annotate_def foldl_annotate_keys by simp

lemma values_annotate_distinct: "distinct (map group_key (values_annotate key qs))"
  unfolding values_annotate_def by (rule foldl_annotate_distinct) simp

lemma values_annotate_total:
  "sum_list (map total_seconds (filter (\<lambda>g. P (group_key g)) (values_annotate key qs))) =
   sum_list (map duration_seconds (filter (\<lambda>e. P (key e)) qs))"
  unfolding values_annotate_def foldl_annotate_total by simp

lemma values_annotate_count:
  "sum_list (map entry_count (filter (\<lambda>g. P (group_key g)) (values_annotate key qs))) =
   length (filter (\<lambda>e. P (key e)) qs)"
  unfolding values_annotate_def foldl_annotate_count by simp

lemma distinct_key_filter:
  assumes "distinct (map f gs)" and "r \<in> set gs"
  shows "filter (\<lambda>g. f g = f r) gs = [r]"
  using assms
proof (induction gs)
  case Nil
  then show ?case by simp
next
  case (Cons g gs)
  show ?case
  proof (cases "r = g")
    case True
    have "f g \<notin> f ` set gs" using Cons.prems(1) by simp
    then have "\<forall>x\<in>set gs. f x \<noteq> f g" by (metis imageI)
    then have "filter (\<lambda>x. f x = f g) gs = []" by (simp add: filter_empty_conv)
    with True show ?thesis by simp
  next
    case False
    with Cons.prems have r: "r \<in> set gs" and d: "distinct (map f gs)" and "f g \<noteq> f r"
      by auto
    with Cons.IH show ?thesis by simp
  qed
qed

lemma values_annotate_row:
  assumes "r \<in> set (values_annotate key qs)"
  shows "total_seconds r = sum_list (map duration_seconds (filter (\<lambda>e. key e = group_key r) qs)) \<and>
         entry_count r = length (filter (\<lambda>e. key e = group_key r) qs)"
proof -
  have f: "filter (\<lambda>g. group_key g = group_key r) (values_annotate key qs) = [r]"
    by (rule distinct_key_filter [OF values_annotate_distinct assms])
  show ?thesis
    using values_annotate_total [of "\<lambda>k. k = group_key r" key qs]
      values_annotate_count [of "\<lambda>k. k = group_key r" key qs]
    unfolding f by simp
qed

subsection \<open>Ordering\<close>

lemma order_by_total_desc_set: "set (order_by_total_desc gs) = set gs"
  by (simp add: order_by_total_desc_def)

lemma order_by_total_desc_distinct:
  "distinct (map f (order_by_total_desc gs)) = distinct (map f gs)"
  by (simp add: order_by_total_desc_def distinct_map)

lemma order_by_total_desc_sorted:
  "sorted_wrt (\<lambda>a b. total_seconds b \<le> total_seconds a) (order_by_total_desc gs)"
proof -
  have "sorted (map (\<lambda>g. - total_seconds g) (order_by_total_desc gs))"
    unfolding order_by_total_desc_def by (rule sorted_sort_key)
  then show ?thesis by (simp add: sorted_map)
qed

subsection \<open>The queryset\<close>

lemma date_filter_ok:
  assumes "date_ok strptime param"
  shows "date_filter strptime param cmp qs = Some (filter (date_matches strptime param cmp) qs)"
proof (cases param)
  case None
  then show ?thesis by (simp add: date_filter_def date_matches_def)
next
  case (Some str)
  show ?thesis
  proof (cases "str = []")
    case True
    with Some show ?thesis by (simp add: date_filter_def date_matches_def)
  next
    case False
    with Some assms obtain d where d: "strptime str = Some d"
      by (auto simp: date_ok_def)
    have "date_matches strptime param cmp = (\<lambda>e. cmp (date_of (created_at e)) d)"
      using Some False d by (simp add: date_matches_def fun_eq_iff)
    with Some False d show ?thesis by (simp add: date_filter_def)
  qed
qed

lemma report_queryset_filter:
  "report_queryset db q sl =
   filter (\<lambda>e. te_workspace e = sl \<and> ended_at e \<noteq> None \<and>
     (case q_project_id q of None \<Rightarrow> True | Some p \<Rightarrow> te_project e = p) \<and>
     (case q_user_id q of None \<Rightarrow> True | Some u \<Rightarrow> te_user e = u)) (time_entries db)"
  by (auto simp: report_queryset_def Let_def split: option.splits intro: filter_cong)

lemma report_response:
  assumes "date_ok strptime (q_from q)" and "date_ok strptime (q_to q)"
    and "group_by = (case q_group_by q of None \<Rightarrow> ''user'' | Some g \<Rightarrow> g)"
    and "group_by \<in> set [''user'', ''work_item'', ''project'', ''module'']"
  shows "TimeEntryReportsEndpoint_get strptime db q sl =
           (200, Report group_by (q_from q) (q_to q)
              (report_rows db group_by
                 (filter (report_matches strptime q sl) (time_entries db))))"
proof -
  have "filter (date_matches strptime (q_to q) (\<lambda>d to_date_obj. d \<le> to_date_obj))
          (filter (date_matches strptime (q_from q) (\<lambda>d from_date_obj. d \<ge> from_date_obj))
             (report_queryset db q sl)) =
        filter (report_matches strptime q sl) (time_entries db)"
    unfolding report_queryset_filter filter_filter
    by (rule filter_cong) (auto simp: report_matches_def)
  then show ?thesis
    using assms(3,4)
    by (simp add: TimeEntryReportsEndpoint_get_def Let_def
        date_filter_ok [OF assms(1)] date_filter_ok [OF assms(2)] del: set_simps)
qed

lemma report_by_ok:
  "date_ok strptime (q_from (report_by g))" "date_ok strptime (q_to (report_by g))"
  "q_group_by (report_by g) = Some g"
  by (simp_all add: report_by_def date_ok_def)

lemma report_db_matches:
  "filter (report_matches strptime (report_by g) ''acme'') (time_entries report_db) =
     [completed_entry 202 2 11 900, completed_entry 201 1 12 1800, completed_entry 200 1 10 3600]"
  by (simp add: report_matches_def date_matches_def report_by_def report_db_def
      completed_entry_def)

lemma report_db_users:
  "report_rows report_db ''user''
     [completed_entry 202 2 11 900, completed_entry 201 1 12 1800, completed_entry 200 1 10 3600] =
   UserReport [\<lparr>group_key = 1, total_seconds = 5400, entry_count = 2\<rparr>,
               \<lparr>group_key = 2, total_seconds = 900, entry_count = 1\<rparr>]"
  by (simp add: report_rows_def order_by_total_desc_def values_annotate_def completed_entry_def)

subsection \<open>Module aggregation\<close>

lemma aggregate_module_keys:
  "(\<lambda>g. fst (group_key g)) ` set (aggregate_module m name s c aggs) =
   insert m ((\<lambda>g. fst (group_key g)) ` set aggs)"
  by (induction aggs) auto

lemma aggregate_module_distinct:
  "distinct (map (\<lambda>g. fst (group_key g)) aggs) \<Longrightarrow>
   distinct (map (\<lambda>g. fst (group_key g)) (aggregate_module m name s c aggs))"
proof (induction aggs)
  case Nil
  then show ?case by simp
next
  case (Cons g gs)
  have "(\<lambda>g. fst (group_key g)) ` set (aggregate_module m name s c gs) =
      insert m ((\<lambda>g. fst (group_key g)) ` set gs)"
    by (rule aggregate_module_keys)
  with Cons show ?case by auto
qed

lemma aggregate_module_total:
  "sum_list (map total_seconds (filter (\<lambda>g. P (fst (group_key g)))
       (aggregate_module m name s c aggs))) =
   sum_list (map total_seconds (filter (\<lambda>g. P (fst (group_key g))) aggs)) +
   (if P m then s else 0)"
  by (induction aggs) auto

lemma aggregate_module_count:
  "sum_list (map entry_count (filter (\<lambda>g. P (fst (group_key g)))
       (aggregate_module m name s c aggs))) =
   sum_list (map entry_count (filter (\<lambda>g. P (fst (group_key g))) aggs)) +
   (if P m then c else 0)"
  by (induction aggs) auto

lemma module_step_keys:
  "(\<lambda>g. fst (group_key g)) ` set (module_step db aggs item) =
   (\<lambda>g. fst (group_key g)) ` set aggs \<union>
   {m. module_of db (fst (group_key item)) = Some m}"
  by (cases "first_module db (fst (group_key item))")
     (simp_all add: module_step_def module_of_def aggregate_module_keys)

lemma module_step_distinct:
  "distinct (map (\<lambda>g. fst (group_key g)) aggs) \<Longrightarrow>
   distinct (map (\<lambda>g. fst (group_key g)) (module_step db aggs item))"
  by (cases "first_module db (fst (group_key item))")
     (simp_all add: module_step_def aggregate_module_distinct)

lemma module_step_total:
  "sum_list (map total_seconds (filter (\<lambda>g. P (fst (group_key g))) (module_step db aggs item))) =
   sum_list (map total_seconds (filter (\<lambda>g. P (fst (group_key g))) aggs)) +
   (if (\<exists>m. module_of db (fst (group_key item)) = Some m \<and> P m) then total_seconds item else 0)"
  by (cases "first_module db (fst (group_key item))")
     (simp_all add: module_step_def module_of_def aggregate_module_total)

lemma module_step_count:
  "sum_list (map entry_count (filter (\<lambda>g. P (fst (group_key g))) (module_step db aggs item))) =
   sum_list (map entry_count (filter (\<lambda>g. P (fst (group_key g))) aggs)) +
   (if (\<exists>m. module_of db (fst (group_key item)) = Some m \<and> P m) then entry_count item else 0)"
  by (cases "first_module db (fst (group_key item))")
     (simp_all add: module_step_def module_of_def aggregate_module_count)

lemma foldl_module_keys:
  "(\<lambda>g. fst (group_key g)) ` set (foldl (module_step db) acc items) =
   (\<lambda>g. fst (group_key g)) ` set acc \<union>
   {m. \<exists>item\<in>set items. module_of db (fst (group_key item)) = Some m}"
proof (induction items arbitrary: acc)
  case Nil
  then show ?case by simp
next
  case (Cons item items)
  show ?case
    unfolding foldl_Cons Cons.IH module_step_keys by auto
qed

lemma foldl_module_distinct:
  "distinct (map (\<lambda>g. fst (group_key g)) acc) \<Longrightarrow>
   distinct (map (\<lambda>g. fst (group_key g)) (foldl (module_step db) acc items))"
proof (induction items arbitrary: acc)
  case Nil
  then show ?case by simp
next
  case (Cons item items)
  from Cons.prems have "distinct (map (\<lambda>g. fst (group_key g)) (module_step db acc item))"
    by (rule module_step_distinct)
  then show ?case
    unfolding foldl_Cons by (rule Cons.IH)
qed

lemma foldl_module_total:
  "sum_list (map total_seconds (filter (\<lambda>g. P (fst (group_key g)))
       (foldl (module_step db) acc items))) =
   sum_list (map total_seconds (filter (\<lambda>g. P (fst (group_key g))) acc)) +
   sum_list (map total_seconds
     (filter (\<lambda>item. \<exists>m. module_of db (fst (group_key item)) = Some m \<and> P m) items))"
proof (induction items arbitrary: acc)
  case Nil
  then show ?case by simp
next
  case (Cons item items)
  show ?case
    unfolding foldl_Cons Cons.IH module_step_total by auto
qed

lemma foldl_module_count:
  "sum_list (map entry_count (filter (\<lambda>g. P (fst (group_key g)))
       (foldl (module_step db) acc items))) =
   sum_list (map entry_count (filter (\<lambda>g. P (fst (group_key g))) acc)) +
   sum_list (map entry_count
     (filter (\<lambda>item. \<exists>m. module_of db (fst (group_key item)) = Some m \<and> P m) items))"
proof (induction items arbitrary: acc)
  case Nil
  then show ?case by simp
next
  case (Cons item items)
  show ?case
    unfolding foldl_Cons Cons.IH module_step_count by auto
qed

text \<open>Grouping by issue and aggregating by module, together, on a queryset.\<close>

lemma module_aggregates_keys:
  "(\<lambda>g. fst (group_key g)) `
     set (module_aggregates db (values_annotate (\<lambda>e. (te_issue e, te_project e)) qs)) =
   {m. \<exists>e\<in>set qs. module_of db (te_issue e) = Some m}"
proof -
  let ?items = "values_annotate (\<lambda>e. (te_issue e, te_project e)) qs"
  have k: "group_key ` set ?items = (\<lambda>e. (te_issue e, te_project e)) ` set qs"
    using values_annotate_keys [of "\<lambda>e. (te_issue e, te_project e)" qs] by simp
  have "{m. \<exists>item\<in>set ?items. module_of db (fst (group_key item)) = Some m} =
        {m. \<exists>key\<in>group_key ` set ?items. module_of db (fst key) = Some m}"
    by blast
  also have "\<dots> = {m. \<exists>e\<in>set qs. module_of db (te_issue e) = Some m}"
    unfolding k by auto
  finally show ?thesis
    unfolding module_aggregates_def foldl_module_keys by simp
qed

lemma module_aggregates_distinct:
  "distinct (map (\<lambda>g. fst (group_key g)) (module_aggregates db items))"
  unfolding module_aggregates_def by (rule foldl_module_distinct) simp

lemma module_aggregates_total:
  "sum_list (map total_seconds (filter (\<lambda>g. P (fst (group_key g)))
     (module_aggregates db (values_annotate (\<lambda>e. (te_issue e, te_project e)) qs)))) =
   sum_list (map duration_seconds
     (filter (\<lambda>e. \<exists>m. module_of db (te_issue e) = Some m \<and> P m) qs))"
  unfolding module_aggregates_def foldl_module_total
  using values_annotate_total
          [of "\<lambda>k. \<exists>m. module_of db (fst k) = Some m \<and> P m" "\<lambda>e. (te_issue e, te_project e)" qs]
  by simp

lemma module_aggregates_count:
  "sum_list (map entry_count (filter (\<lambda>g. P (fst (group_key g)))
     (module_aggregates db (values_annotate (\<lambda>e. (te_issue e, te_project e)) qs)))) =
   length (filter (\<lambda>e. \<exists>m. module_of db (te_issue e) = Some m \<and> P m) qs)"
  unfolding module_aggregates_def foldl_module_count
  using values_annotate_count
          [of "\<lambda>k. \<exists>m. module_of db (fst k) = Some m \<and> P m" "\<lambda>e. (te_issue e, te_project e)" qs]
  by simp

lemma module_aggregates_row:
  assumes "r \<in> set (module_aggregates db (values_annotate (\<lambda>e. (te_issue e, te_project e)) qs))"
  shows "total_seconds r =
           sum_list (map duration_seconds
             (filter (\<lambda>e. module_of db (te_issue e) = Some (fst (group_key r))) qs)) \<and>
         entry_count r =
           length (filter (\<lambda>e. module_of db (te_issue e) = Some (fst (group_key r))) qs)"
proof -
  let ?aggs = "module_aggregates db (values_annotate (\<lambda>e. (te_issue e, te_project e)) qs)"
  have f: "filter (\<lambda>g. fst (group_key g) = fst (group_key r)) ?aggs = [r]"
    by (rule distinct_key_filter [OF module_aggregates_distinct assms])
  show ?thesis
    using module_aggregates_total [of "\<lambda>m. m = fst (group_key r)" db qs]
      module_aggregates_count [of "\<lambda>m. m = fst (group_key r)" db qs]
    unfolding f by simp
qed

lemma sum_list_insort_key:
  "sum_list (map f (insort_key k x xs)) = (f x :: int) + sum_list (map f xs)"
  by (induction xs) simp_all

lemma sum_list_sort_key: "sum_list (map f (sort_key k xs)) = (sum_list (map f xs) :: int)"
  by (induction xs) (simp_all add: sum_list_insort_key)

lemma order_by_total_desc_sum:
  "sum_list (map total_seconds (order_by_total_desc gs)) = sum_list (map total_seconds gs)"
  unfolding order_by_total_desc_def
  using sum_list_sort_key [of total_seconds "\<lambda>g. - total_seconds g" gs] by simp

lemma module_of_first:
  "module_of db i =
     (case filter (\<lambda>m. mi_issue_id m = i) (module_issues db) of
        [] \<Rightarrow> None
      | module_issue # others \<Rightarrow> Some (mi_module_id module_issue))"
  by (simp add: module_of_def first_module_def first_def split: list.splits)

lemma report_db_modules:
  "report_rows report_db ''module''
     [completed_entry 202 2 11 900, completed_entry 201 1 12 1800, completed_entry 200 1 10 3600] =
   ModuleReport [\<lparr>group_key = (50, ''Alpha''), total_seconds = 3600, entry_count = 1\<rparr>,
                 \<lparr>group_key = (51, ''Beta''), total_seconds = 900, entry_count = 1\<rparr>]"
  by (simp add: report_rows_def order_by_total_desc_def values_annotate_def completed_entry_def
      module_aggregates_def module_step_def first_module_def first_def report_db_def)

subsection \<open>Creating without a duration\<close>

lemma create_manual_without_duration:
  assumes "check_time_tracking_enabled db pid = None"
    and "get_issue db iid pid sl = Some iss"
    and "p_issue_id payload = Some i"
    and "p_source payload = None \<or> p_source payload = Some MANUAL"
    and "p_duration_seconds payload = None"
  shows "TimeEntryViewSet_create db now new_id u payload sl pid iid =
           ((400, Errors DurationRequiredQuick), db)"
proof -
  obtain checked where c: "create_fields payload = Inr checked"
    and cs: "c_source checked = MANUAL" "c_duration_seconds checked = None"
    using assms(3-5) by (auto simp: create_fields_def)
  have "create_validate now checked = Inl DurationRequiredQuick"
    using cs by (simp add: create_validate_def)
  with assms(1,2) c show ?thesis
    by (simp add: TimeEntryViewSet_create_def)
qed

subsection \<open>The old timer of the examples\<close>

lemma demo_old_enabled: "check_time_tracking_enabled demo_db_old 1 = None"
  by (simp add: check_time_tracking_enabled_def demo_defs)

lemma demo_old_first:
  "first (filter (active_timer_filter 10 7) (time_entries demo_db_old)) = Some demo_old_timer"
  by (simp add: first_def active_timer_filter_def demo_defs)

lemma demo_old_elapsed:
  "elapsed_seconds (at_time (- 7305) 0 0 0) (at_time 19723 11 30 0) = 2335260600"
  by (subst elapsed_exact) (simp_all add: at_time_def)

lemma demo_inverted_enabled: "check_time_tracking_enabled demo_db_inverted 1 = None"
  by (simp add: check_time_tracking_enabled_def demo_defs)

subsection \<open>The first entry of the timer query\<close>

lemma first_Some_iff: "first xs = Some a \<longleftrightarrow> (\<exists>rest. xs = a # rest)"
  by (cases xs) (simp_all add: first_def)

lemma check_row_stop_other:
  assumes "other_active_filter iid u x"
    and "duration_seconds (stop_timer now x) \<le> 2147483647"
  shows "check_row (stop_timer now x) = None"
proof -
  from assms(1) obtain s where s: "started_at x = Some s"
    by (auto simp: other_active_filter_def)
  then have "duration_seconds (stop_timer now x) = elapsed_seconds s now"
    by (simp add: stop_timer_started)
  with assms(2) elapsed_nonneg [of s now] show ?thesis
    by (simp add: check_row_None_iff)
qed

lemma active_timer_first:
  assumes "e \<in> set (time_entries db)" and "active_timer_filter iid u e"
  shows "\<exists>a rest sa. filter (active_timer_filter iid u) (time_entries db) = a # rest \<and>
           started_at a = Some sa \<and>
           first (filter (active_timer_filter iid u) (time_entries db)) = Some a"
proof -
  obtain a where a: "first (filter (active_timer_filter iid u) (time_entries db)) = Some a"
    using first_filter_member [of e "time_entries db" "active_timer_filter iid u"] assms
    by blast
  then obtain rest where r: "filter (active_timer_filter iid u) (time_entries db) = a # rest"
    by (auto simp: first_Some_iff)
  from a have "active_timer_filter iid u a" by (auto dest: first_filter_Some)
  then obtain sa where "started_at a = Some sa"
    by (auto simp: active_timer_filter_def)
  with a r show ?thesis by blast
qed

lemma get_active_first:
  "first (filter (active_timer_filter iid u) (time_entries db)) = Some a \<Longrightarrow>
   TimeEntryActiveTimerEndpoint_get db u sl pid iid =
     (200, ActiveTimer (Some (to_representation a)))"
  by (simp add: TimeEntryActiveTimerEndpoint_get_def)

lemma demo_two_elapsed:
  "elapsed_seconds (at_time 19723 9 30 0) (at_time 19723 11 30 0) = 7200"
  "elapsed_seconds (at_time 19723 9 0 0) (at_time 19723 11 30 0) = 9000"
  by (subst elapsed_exact, simp add: at_time_def, simp add: at_time_def)+

section \<open>Properties of the time tracking views\<close>

subsection \<open>Starting a timer on an issue that already has one\<close>

text \<open>
  Claim C4. When time tracking is enabled and the issue of the URL exists, a user who
  holds an active entry on that issue and starts a timer on it again is answered 400 with
  the conflict message, and the database is returned as it was: no row is created and no
  row is changed.
\<close>

theorem start_on_same_issue_conflict:
  assumes "check_time_tracking_enabled db pid = None"
    and "get_issue db iid pid sl = Some iss"
    and "e \<in> set (time_entries db)"
    and "te_user e = u" and "te_issue e = iid"
    and "is_active (to_representation e)"
  shows "TimeEntryTimerEndpoint_post db now new_id u req sl pid iid =
           ((400, Error ''You already have an active timer on this issue''), db)"
proof -
  have "active_timer_filter iid u e"
    using assms(4-6) by (simp add: active_timer_filter_def to_representation_def time_entry.defs)
  with assms(1-3) show ?thesis by (rule post_conflict)
qed

theorem start_on_same_issue_conflict_witness:
  "TimeEntryTimerEndpoint_post demo_db (at_time 19723 11 30 0) 101 7 empty_request ''acme'' 1 10 =
     ((400, Error ''You already have an active timer on this issue''), demo_db)"
proof -
  have "demo_timer_a \<in> set (time_entries demo_db)" by (simp add: demo_db_def)
  moreover have "te_user demo_timer_a = 7" "te_issue demo_timer_a = 10"
    "is_active (to_representation demo_timer_a)"
    by (simp_all add: demo_timer_a_def to_representation_def time_entry.defs)
  ultimately show ?thesis
    using start_on_same_issue_conflict [OF demo_enabled demo_get_issue_a] by blast
qed

subsection \<open>The feature toggle and the timer views\<close>

text \<open>
  Claim C3. With time tracking switched off for the project, starting and stopping a
  timer are answered 403 before anything else is looked at, but
  \<^verbatim>\<open>TimeEntryActiveTimerEndpoint.get\<close> never consults the toggle: on the example
  database it answers 200 with the running timer.
\<close>

theorem active_timer_ignores_feature_toggle:
  "check_time_tracking_enabled demo_db_disabled 1 =
     Some (403, Error ''Time tracking is not enabled for this project'') \<and>
   TimeEntryTimerEndpoint_post demo_db_disabled (at_time 19723 11 30 0) 101 7 empty_request ''acme'' 1 10 =
     ((403, Error ''Time tracking is not enabled for this project''), demo_db_disabled) \<and>
   TimeEntryTimerEndpoint_delete demo_db_disabled (at_time 19723 11 30 0) 7 ''acme'' 1 10 =
     ((403, Error ''Time tracking is not enabled for this project''), demo_db_disabled) \<and>
   TimeEntryActiveTimerEndpoint_get demo_db_disabled 7 ''acme'' 1 10 =
     (200, ActiveTimer (Some (to_representation demo_timer_a)))"
proof -
  have c: "check_time_tracking_enabled demo_db_disabled 1 =
     Some (403, Error ''Time tracking is not enabled for this project'')"
    by (simp add: check_time_tracking_enabled_def demo_defs)
  have g: "TimeEntryActiveTimerEndpoint_get demo_db_disabled 7 ''acme'' 1 10 =
     (200, ActiveTimer (Some (to_representation demo_timer_a)))"
    by (simp add: TimeEntryActiveTimerEndpoint_get_def first_def active_timer_filter_def demo_defs)
  show ?thesis
    using c g by (simp add: TimeEntryTimerEndpoint_post_def TimeEntryTimerEndpoint_delete_def)
qed

subsection \<open>The create endpoint forces the source to MANUAL\<close>

text \<open>
  Claim C9. A payload of the issue-scoped create endpoint with source TIMER and no
  \<^verbatim>\<open>duration_seconds\<close> passes the quick-create validator, which defaults a missing
  \<^verbatim>\<open>started_at\<close> to the clock; the view then overwrites the source, so the stored row
  has source MANUAL and \<^verbatim>\<open>duration_seconds\<close> 0.
\<close>

theorem create_timer_payload_stored_as_manual:
  assumes "check_time_tracking_enabled db pid = None"
    and "get_issue db iid pid sl = Some iss"
    and "p_issue_id payload = Some iid"
    and "p_source payload = Some TIMER"
    and "p_duration_seconds payload = None"
  shows "\<exists>entry.
           TimeEntryViewSet_create db now new_id u payload sl pid iid =
             ((201, Entry (to_representation entry)),
              db\<lparr>time_entries := entry # time_entries db\<rparr>) \<and>
           source entry = MANUAL \<and> duration_seconds entry = 0 \<and>
           started_at entry = Some (case p_started_at payload of None \<Rightarrow> now | Some s \<Rightarrow> s)"
proof -
  obtain checked where c: "create_fields payload = Inr checked"
    and cs: "c_source checked = TIMER" "c_duration_seconds checked = None"
      "c_started_at checked = p_started_at payload"
    using assms(3-5) by (simp add: create_fields_def)
  obtain data where v: "create_validate now checked = Inr data"
    and ds: "c_duration_seconds data = None"
      "c_started_at data = Some (case p_started_at payload of None \<Rightarrow> now | Some s \<Rightarrow> s)"
    using cs by (cases "p_started_at payload") (simp_all add: create_validate_def)
  let ?entry = "new_entry iss u now new_id data"
  have d: "source ?entry = MANUAL" "duration_seconds ?entry = 0"
    "started_at ?entry = Some (case p_started_at payload of None \<Rightarrow> now | Some s \<Rightarrow> s)"
    using ds by (simp_all add: new_entry_def)
  have "check_row ?entry = None"
    using d(2) by (simp add: check_row_None_iff)
  then have "TimeEntryViewSet_create db now new_id u payload sl pid iid =
          ((201, Entry (to_representation ?entry)), db\<lparr>time_entries := ?entry # time_entries db\<rparr>)"
    using assms(1,2) c v by (simp add: TimeEntryViewSet_create_def Let_def objects_create_ok)
  with d show ?thesis by blast
qed

theorem create_timer_payload_stored_as_manual_witness:
  "\<exists>entry.
     TimeEntryViewSet_create demo_db (at_time 19723 11 30 0) 101 7 timer_payload ''acme'' 1 11 =
       ((201, Entry (to_representation entry)),
        demo_db\<lparr>time_entries := entry # time_entries demo_db\<rparr>) \<and>
     source entry = MANUAL \<and> duration_seconds entry = 0 \<and>
     started_at entry = Some (at_time 19723 11 30 0)"
  using create_timer_payload_stored_as_manual
          [OF demo_enabled demo_get_issue_b, of timer_payload "at_time 19723 11 30 0" 101 7]
  by (simp add: timer_payload_def)

subsection \<open>The report by user\<close>

text \<open>
  Claim C6. When \<^verbatim>\<open>group_by\<close> is \<^verbatim>\<open>user\<close> (or absent) and the dates parse, the report
  is answered 200 with one row per user id among the matching entries, which all belong
  to the workspace and have \<^verbatim>\<open>ended_at\<close> set; the \<^verbatim>\<open>total_seconds\<close> of a row is the
  sum of \<^verbatim>\<open>duration_seconds\<close> and its \<^verbatim>\<open>entry_count\<close> the number of that user's
  matching entries; the rows are in descending order of \<^verbatim>\<open>total_seconds\<close>. For the
  entries of 3600 and 1800 seconds of user 1 and of 900 seconds of user 2 the rows are
  (1, 5400, 2) and (2, 900, 1), an entry without \<^verbatim>\<open>ended_at\<close> not being counted.
\<close>

theorem user_report_totals:
  assumes "date_ok strptime (q_from q)" and "date_ok strptime (q_to q)"
    and "q_group_by q = None \<or> q_group_by q = Some ''user''"
  shows "\<exists>rows.
     TimeEntryReportsEndpoint_get strptime db q sl =
       (200, Report ''user'' (q_from q) (q_to q) (UserReport rows)) \<and>
     distinct (map group_key rows) \<and>
     set (map group_key rows) =
       te_user ` set (filter (report_matches strptime q sl) (time_entries db)) \<and>
     (\<forall>r\<in>set rows.
        total_seconds r =
          sum_list (map duration_seconds
            (filter (\<lambda>e. report_matches strptime q sl e \<and> te_user e = group_key r)
               (time_entries db))) \<and>
        entry_count r =
          length (filter (\<lambda>e. report_matches strptime q sl e \<and> te_user e = group_key r)
                    (time_entries db))) \<and>
     sorted_wrt (\<lambda>a b. total_seconds b \<le> total_seconds a) rows \<and>
     (\<forall>e. report_matches strptime q sl e \<longrightarrow> te_workspace e = sl \<and> ended_at e \<noteq> None)"
proof -
  let ?qs = "filter (report_matches strptime q sl) (time_entries db)"
  let ?rows = "order_by_total_desc (values_annotate te_user ?qs)"
  have g: "''user'' = (case q_group_by q of None \<Rightarrow> ''user'' | Some g \<Rightarrow> g)"
    using assms(3) by auto
  have r: "TimeEntryReportsEndpoint_get strptime db q sl =
       (200, Report ''user'' (q_from q) (q_to q) (UserReport ?rows))"
    unfolding report_response [OF assms(1,2) g, of db sl, simplified]
    by (simp add: report_rows_def)
  have d: "distinct (map group_key ?rows)"
    by (simp add: order_by_total_desc_distinct values_annotate_distinct)
  have k: "set (map group_key ?rows) = te_user ` set ?qs"
    using values_annotate_keys [of te_user ?qs]
    by (simp add: order_by_total_desc_set)
  have t: "\<forall>r\<in>set ?rows.
        total_seconds r =
          sum_list (map duration_seconds
            (filter (\<lambda>e. report_matches strptime q sl e \<and> te_user e = group_key r)
               (time_entries db))) \<and>
        entry_count r =
          length (filter (\<lambda>e. report_matches strptime q sl e \<and> te_user e = group_key r)
                    (time_entries db))"
  proof
    fix r assume "r \<in> set ?rows"
    then have "r \<in> set (values_annotate te_user ?qs)"
      by (simp add: order_by_total_desc_set)
    from values_annotate_row [OF this]
    show "total_seconds r =
          sum_list (map duration_seconds
            (filter (\<lambda>e. report_matches strptime q sl e \<and> te_user e = group_key r)
               (time_entries db))) \<and>
        entry_count r =
          length (filter (\<lambda>e. report_matches strptime q sl e \<and> te_user e = group_key r)
                    (time_entries db))"
      by (simp add: conj_commute)
  qed
  have s: "sorted_wrt (\<lambda>a b. total_seconds b \<le> total_seconds a) ?rows"
    by (rule order_by_total_desc_sorted)
  have m: "\<forall>e. report_matches strptime q sl e \<longrightarrow> te_workspace e = sl \<and> ended_at e \<noteq> None"
    by (simp add: report_matches_def)
  from r d k t s m show ?thesis by blast
qed

theorem user_report_totals_witness:
  "TimeEntryReportsEndpoint_get (\<lambda>s. None) report_db (report_by ''user'') ''acme'' =
     (200, Report ''user'' None None
        (UserReport [\<lparr>group_key = 1, total_seconds = 5400, entry_count = 2\<rparr>,
                     \<lparr>group_key = 2, total_seconds = 900, entry_count = 1\<rparr>])) \<and>
   (\<exists>rows. TimeEntryReportsEndpoint_get (\<lambda>s. None) report_db (report_by ''user'') ''acme'' =
       (200, Report ''user'' (q_from (report_by ''user'')) (q_to (report_by ''user''))
          (UserReport rows)) \<and>
     distinct (map group_key rows) \<and>
     sorted_wrt (\<lambda>a b. total_seconds b \<le> total_seconds a) rows)"
proof -
  have g: "q_group_by (report_by ''user'') = None \<or> q_group_by (report_by ''user'') = Some ''user''"
    by (simp add: report_by_def)
  have e: "''user'' = (case q_group_by (report_by ''user'') of None \<Rightarrow> ''user'' | Some g \<Rightarrow> g)"
    by (simp add: report_by_def)
  have v: "TimeEntryReportsEndpoint_get (\<lambda>s. None) report_db (report_by ''user'') ''acme'' =
     (200, Report ''user'' None None
        (UserReport [\<lparr>group_key = 1, total_seconds = 5400, entry_count = 2\<rparr>,
                     \<lparr>group_key = 2, total_seconds = 900, entry_count = 1\<rparr>]))"
    unfolding report_response [OF report_by_ok(1,2) e,
        where db = report_db and sl = "''acme''" and strptime = "\<lambda>s. None", simplified]
      report_db_matches report_db_users
    by (simp add: report_by_def)
  from user_report_totals [OF report_by_ok(1,2) g,
         where db = report_db and sl = "''acme''" and strptime = "\<lambda>s. None"] v
  show ?thesis by blast
qed

subsection \<open>The report by module\<close>

text \<open>
  Claim C7. When \<^verbatim>\<open>group_by\<close> is \<^verbatim>\<open>module\<close> and the dates parse, the report is
  answered 200 with one row per module that is the first module of the issue of some
  matching entry, and no other row. The totals of a row are the sum of
  \<^verbatim>\<open>duration_seconds\<close> and the number of the matching entries whose issue has that
  module as its first one, so an issue linked to several modules counts for the first
  only; all rows together hold the time of exactly the matching entries whose issue has
  a module, so an entry whose issue has none is counted nowhere. The first module of an
  issue is that of the first \<^verbatim>\<open>ModuleIssue\<close> row of the issue.
\<close>

theorem module_report_totals:
  assumes "date_ok strptime (q_from q)" and "date_ok strptime (q_to q)"
    and "q_group_by q = Some ''module''"
  shows "\<exists>rows.
     TimeEntryReportsEndpoint_get strptime db q sl =
       (200, Report ''module'' (q_from q) (q_to q) (ModuleReport rows)) \<and>
     distinct (map (\<lambda>r. fst (group_key r)) rows) \<and>
     (\<lambda>r. fst (group_key r)) ` set rows =
       {m. \<exists>e\<in>set (time_entries db).
             report_matches strptime q sl e \<and> module_of db (te_issue e) = Some m} \<and>
     (\<forall>r\<in>set rows.
        total_seconds r =
          sum_list (map duration_seconds
            (filter (\<lambda>e. report_matches strptime q sl e \<and>
                          module_of db (te_issue e) = Some (fst (group_key r)))
               (time_entries db))) \<and>
        entry_count r =
          length (filter (\<lambda>e. report_matches strptime q sl e \<and>
                               module_of db (te_issue e) = Some (fst (group_key r)))
                    (time_entries db))) \<and>
     sum_list (map total_seconds rows) =
       sum_list (map duration_seconds
         (filter (\<lambda>e. report_matches strptime q sl e \<and> module_of db (te_issue e) \<noteq> None)
            (time_entries db))) \<and>
     (\<forall>i. module_of db i =
        (case filter (\<lambda>m. mi_issue_id m = i) (module_issues db) of
           [] \<Rightarrow> None
         | module_issue # others \<Rightarrow> Some (mi_module_id module_issue)))"
proof -
  let ?qs = "filter (report_matches strptime q sl) (time_entries db)"
  let ?aggs = "module_aggregates db (values_annotate (\<lambda>e. (te_issue e, te_project e)) ?qs)"
  let ?rows = "order_by_total_desc ?aggs"
  have g: "''module'' = (case q_group_by q of None \<Rightarrow> ''user'' | Some g \<Rightarrow> g)"
    using assms(3) by simp
  have r: "TimeEntryReportsEndpoint_get strptime db q sl =
       (200, Report ''module'' (q_from q) (q_to q) (ModuleReport ?rows))"
    unfolding report_response [OF assms(1,2) g, of db sl, simplified]
    by (simp add: report_rows_def)
  have d: "distinct (map (\<lambda>r. fst (group_key r)) ?rows)"
    by (simp add: order_by_total_desc_distinct module_aggregates_distinct)
  have k: "(\<lambda>r. fst (group_key r)) ` set ?rows =
       {m. \<exists>e\<in>set (time_entries db).
             report_matches strptime q sl e \<and> module_of db (te_issue e) = Some m}"
    unfolding order_by_total_desc_set module_aggregates_keys by auto
  have t: "\<forall>r\<in>set ?rows.
        total_seconds r =
          sum_list (map duration_seconds
            (filter (\<lambda>e. report_matches strptime q sl e \<and>
                          module_of db (te_issue e) = Some (fst (group_key r)))
               (time_entries db))) \<and>
        entry_count r =
          length (filter (\<lambda>e. report_matches strptime q sl e \<and>
                               module_of db (te_issue e) = Some (fst (group_key r)))
                    (time_entries db))"
  proof
    fix r assume "r \<in> set ?rows"
    then have "r \<in> set ?aggs"
      by (simp add: order_by_total_desc_set)
    from module_aggregates_row [OF this]
    show "total_seconds r =
          sum_list (map duration_seconds
            (filter (\<lambda>e. report_matches strptime q sl e \<and>
                          module_of db (te_issue e) = Some (fst (group_key r)))
               (time_entries db))) \<and>
        entry_count r =
          length (filter (\<lambda>e. report_matches strptime q sl e \<and>
                               module_of db (te_issue e) = Some (fst (group_key r)))
                    (time_entries db))"
      by (simp add: conj_commute)
  qed
  have s: "sum_list (map total_seconds ?rows) =
       sum_list (map duration_seconds
         (filter (\<lambda>e. report_matches strptime q sl e \<and> module_of db (te_issue e) \<noteq> None)
            (time_entries db)))"
    using module_aggregates_total [of "\<lambda>m. True" db ?qs]
    by (simp add: order_by_total_desc_sum conj_commute)
  have f: "\<forall>i. module_of db i =
        (case filter (\<lambda>m. mi_issue_id m = i) (module_issues db) of
           [] \<Rightarrow> None
         | module_issue # others \<Rightarrow> Some (mi_module_id module_issue))"
    by (simp add: module_of_first)
  from r d k t s f show ?thesis by blast
qed

theorem module_report_totals_witness:
  "TimeEntryReportsEndpoint_get (\<lambda>s. None) report_db (report_by ''module'') ''acme'' =
     (200, Report ''module'' None None
        (ModuleReport [\<lparr>group_key = (50, ''Alpha''), total_seconds = 3600, entry_count = 1\<rparr>,
                       \<lparr>group_key = (51, ''Beta''), total_seconds = 900, entry_count = 1\<rparr>])) \<and>
   module_of report_db 10 = Some 50 \<and> module_of report_db 11 = Some 51 \<and>
   module_of report_db 12 = None \<and>
   (\<exists>rows. TimeEntryReportsEndpoint_get (\<lambda>s. None) report_db (report_by ''module'') ''acme'' =
       (200, Report ''module'' (q_from (report_by ''module'')) (q_to (report_by ''module''))
          (ModuleReport rows)) \<and>
     distinct (map (\<lambda>r. fst (group_key r)) rows))"
proof -
  have e: "''module'' =
      (case q_group_by (report_by ''module'') of None \<Rightarrow> ''user'' | Some g \<Rightarrow> g)"
    by (simp add: report_by_def)
  have v: "TimeEntryReportsEndpoint_get (\<lambda>s. None) report_db (report_by ''module'') ''acme'' =
     (200, Report ''module'' None None
        (ModuleReport [\<lparr>group_key = (50, ''Alpha''), total_seconds = 3600, entry_count = 1\<rparr>,
                       \<lparr>group_key = (51, ''Beta''), total_seconds = 900, entry_count = 1\<rparr>]))"
    unfolding report_response [OF report_by_ok(1,2) e,
        where db = report_db and sl = "''acme''" and strptime = "\<lambda>s. None", simplified]
      report_db_matches report_db_modules
    by (simp add: report_by_def)
  have m: "module_of report_db 10 = Some 50" "module_of report_db 11 = Some 51"
    "module_of report_db 12 = None"
    by (simp_all add: module_of_first report_db_def)
  from module_report_totals [OF report_by_ok,
         where db = report_db and sl = "''acme''" and strptime = "\<lambda>s. None"] v m
  show ?thesis by blast
qed


subsection \<open>Starting a timer on another issue\<close>

text \<open>
  Claim C1. The code does not do what the claim says at the following input. User 7 has
  an active timer on issue 10 and has posted, through the create endpoint, a MANUAL
  entry on issue 11 with a start and no end; that entry is no active timer, its
  \<^verbatim>\<open>is_active\<close> is false. Starting a timer on issue 11 is nevertheless answered 400 with
  the message that there is an active timer on the issue: the conflict query of
  \<^verbatim>\<open>TimeEntryTimerEndpoint.post\<close> does not look at the source. The timer on issue 10 is
  not stopped and no entry is created, the database being returned as it was.
\<close>

theorem start_on_other_issue_blocked_by_open_manual_entry:
  "snd (TimeEntryViewSet_create demo_db (at_time 19723 10 15 0) 102 7 open_manual_payload
          ''acme'' 1 11) = demo_db_manual \<and>
   demo_timer_a \<in> set (time_entries demo_db_manual) \<and>
   is_active (to_representation demo_timer_a) \<and>
   te_user demo_timer_a = 7 \<and> te_issue demo_timer_a = 10 \<and>
   \<not> is_active (to_representation demo_manual_b) \<and>
   TimeEntryTimerEndpoint_post demo_db_manual (at_time 19723 11 30 0) 101 7 empty_request
     ''acme'' 1 11 =
     ((400, Error ''You already have an active timer on this issue''), demo_db_manual)"
proof -
  have cf: "create_fields open_manual_payload =
      Inr \<lparr>c_issue_id = 11, c_duration_seconds = Some 600,
           c_started_at = Some (at_time 19723 9 0 0), c_ended_at = None,
           c_source = MANUAL, c_note = None, c_is_billable = False\<rparr>"
    by (simp add: create_fields_def open_manual_payload_def)
  have cr: "snd (TimeEntryViewSet_create demo_db (at_time 19723 10 15 0) 102 7 open_manual_payload
          ''acme'' 1 11) = demo_db_manual"
    using demo_enabled demo_get_issue_b cf
    by (simp add: TimeEntryViewSet_create_def create_validate_def new_entry_def Let_def
        objects_create_def check_row_def)
       (simp add: demo_defs)
  have m: "demo_manual_b \<in> set (time_entries demo_db_manual)"
    by (simp add: demo_defs)
  have f: "active_timer_filter 11 7 demo_manual_b"
    by (simp add: active_timer_filter_def demo_manual_b_def)
  have p: "TimeEntryTimerEndpoint_post demo_db_manual (at_time 19723 11 30 0) 101 7 empty_request
     ''acme'' 1 11 =
     ((400, Error ''You already have an active timer on this issue''), demo_db_manual)"
    by (rule post_conflict [OF demo_manual_enabled demo_manual_get_issue_b m f])
  have a: "demo_timer_a \<in> set (time_entries demo_db_manual)"
    "is_active (to_representation demo_timer_a)"
    "te_user demo_timer_a = 7" "te_issue demo_timer_a = 10"
    "\<not> is_active (to_representation demo_manual_b)"
    by (simp_all add: is_active_iff demo_defs)
  from cr a p show ?thesis by blast
qed

subsection \<open>A payload with a start and an end but no duration\<close>

text \<open>
  Claim C2 does not hold as stated: a MANUAL payload without \<^verbatim>\<open>duration_seconds\<close> is
  rejected whatever its datetimes, by \<^verbatim>\<open>TimeEntrySerializer.validate\<close> and by the
  create endpoint, which leaves the database as it was. The payload is the
  specification's: 2024-01-01 10:00:00 to 11:30:00.
\<close>

theorem manual_range_without_duration_rejected:
  "validate (range_data MANUAL) = Inl DurationRequired \<and>
   TimeEntryViewSet_create demo_db (at_time 19723 12 0 0) 101 7 range_payload ''acme'' 1 11 =
     ((400, Errors DurationRequiredQuick), demo_db)"
proof -
  have "validate (range_data MANUAL) = Inl DurationRequired"
    by (simp add: validate_def range_data_def)
  moreover have "create_fields range_payload =
      Inr \<lparr>c_issue_id = 11, c_duration_seconds = None,
           c_started_at = Some (at_time 19723 10 0 0), c_ended_at = Some (at_time 19723 11 30 0),
           c_source = MANUAL, c_note = None, c_is_billable = False\<rparr>"
    by (simp add: create_fields_def range_payload_def)
  ultimately show ?thesis
    using demo_enabled demo_get_issue_b
    by (simp add: TimeEntryViewSet_create_def create_validate_def)
qed

text \<open>
  Claim C2, amended. For a payload with \<^verbatim>\<open>started_at\<close> and \<^verbatim>\<open>ended_at\<close> set,
  \<^verbatim>\<open>started_at\<close> not after \<^verbatim>\<open>ended_at\<close>, and no \<^verbatim>\<open>duration_seconds\<close>:
  \<^verbatim>\<open>TimeEntrySerializer.validate\<close> succeeds when the source is TIMER, setting
  \<^verbatim>\<open>duration_seconds\<close> to \<^verbatim>\<open>max(0, int((ended_at - started_at).total_seconds()))\<close>,
  which is the floor of the difference in seconds when the two are less than
  \<open>2 ^ 34\<close> seconds apart; it fails with the error on \<^verbatim>\<open>duration_seconds\<close> when the
  source is MANUAL or absent; and the create endpoint (time tracking enabled, issue
  found, \<^verbatim>\<open>issue_id\<close> given) answers such a payload with source MANUAL or absent with 400
  and stores nothing. From 10:00:00 to 11:30:00 the derived duration is 5400.
\<close>

theorem validate_derives_duration_for_timer_source:
  assumes "d_started_at data = Some s" and "d_ended_at data = Some e" and "s \<le> e"
    and "d_duration_seconds data = None"
  shows "(d_source data = Some TIMER \<longrightarrow>
            validate data = Inr (data\<lparr>d_duration_seconds := Some (elapsed_seconds s e)\<rparr>) \<and>
            (e - s < 17179869184000000 \<longrightarrow>
               elapsed_seconds s e = \<lfloor>real_of_int (e - s) / 1000000\<rfloor>)) \<and>
         (d_source data \<noteq> Some TIMER \<longrightarrow> validate data = Inl DurationRequired) \<and>
         (check_time_tracking_enabled db pid = None \<longrightarrow>
          get_issue db iid pid sl = Some iss \<longrightarrow>
          p_issue_id payload = Some i \<longrightarrow>
          p_source payload = None \<or> p_source payload = Some MANUAL \<longrightarrow>
          p_started_at payload = Some s \<longrightarrow> p_ended_at payload = Some e \<longrightarrow>
          p_duration_seconds payload = None \<longrightarrow>
            TimeEntryViewSet_create db now new_id u payload sl pid iid =
              ((400, Errors DurationRequiredQuick), db))"
proof -
  have fl: "e - s < 17179869184000000 \<longrightarrow>
      elapsed_seconds s e = \<lfloor>real_of_int (e - s) / 1000000\<rfloor>"
  proof
    assume b: "e - s < 17179869184000000"
    have "0 \<le> \<lfloor>real_of_int (e - s) / 1000000\<rfloor>"
      using assms(3) by simp
    with elapsed_floor [OF b] show "elapsed_seconds s e = \<lfloor>real_of_int (e - s) / 1000000\<rfloor>"
      by simp
  qed
  have v: "(d_source data = Some TIMER \<longrightarrow>
            validate data = Inr (data\<lparr>d_duration_seconds := Some (elapsed_seconds s e)\<rparr>)) \<and>
         (d_source data \<noteq> Some TIMER \<longrightarrow> validate data = Inl DurationRequired)"
  proof (cases "d_source data")
    case None
    with assms show ?thesis by (simp add: validate_def)
  next
    case (Some src)
    with assms show ?thesis by (cases src) (simp_all add: validate_def)
  qed
  from fl v create_manual_without_duration [of db pid iid sl iss payload i now new_id u]
  show ?thesis by blast
qed

theorem validate_derives_duration_for_timer_source_witness:
  "validate (range_data TIMER) = Inr ((range_data TIMER)\<lparr>d_duration_seconds := Some 5400\<rparr>) \<and>
   validate (range_data MANUAL) = Inl DurationRequired \<and>
   \<lfloor>real_of_int (at_time 19723 11 30 0 - at_time 19723 10 0 0) / 1000000\<rfloor> = 5400 \<and>
   TimeEntryViewSet_create demo_db (at_time 19723 12 0 0) 101 7 range_payload ''acme'' 1 11 =
     ((400, Errors DurationRequiredQuick), demo_db)"
proof -
  have le: "at_time 19723 10 0 0 \<le> at_time 19723 11 30 0" by (simp add: at_time_def)
  have bd: "at_time 19723 11 30 0 - at_time 19723 10 0 0 < 17179869184000000"
    by (simp add: at_time_def)
  have r: "\<And>src. d_started_at (range_data src) = Some (at_time 19723 10 0 0)"
    "\<And>src. d_ended_at (range_data src) = Some (at_time 19723 11 30 0)"
    "\<And>src. d_duration_seconds (range_data src) = None"
    "\<And>src. d_source (range_data src) = Some src"
    by (simp_all add: range_data_def)
  have p: "p_issue_id range_payload = Some 11"
    "p_source range_payload = None \<or> p_source range_payload = Some MANUAL"
    "p_started_at range_payload = Some (at_time 19723 10 0 0)"
    "p_ended_at range_payload = Some (at_time 19723 11 30 0)"
    "p_duration_seconds range_payload = None"
    by (simp_all add: range_payload_def)
  note t = validate_derives_duration_for_timer_source
            [OF r(1) r(2) le r(3), where db = demo_db and pid = 1 and iid = 11
               and sl = "''acme''" and iss = demo_issue_b and payload = range_payload
               and i = 11 and now = "at_time 19723 12 0 0" and new_id = 101 and u = 7]
  from t [of TIMER] t [of MANUAL] r(4) bd demo_elapsed demo_enabled demo_get_issue_b p
  show ?thesis by simp
qed

subsection \<open>Elapsed seconds\<close>

text \<open>
  Claim C5 does not hold as stated. The code takes the integer part of the float
  \<^verbatim>\<open>total_seconds()\<close>, and from \<open>2 ^ 34\<close> seconds on that float can be the next whole
  number: from 1400-01-01 00:00:00 to 1944-05-30 01:53:04.999999 the elapsed seconds are
  17179869185, the floor of the difference is 17179869184. And stopping a timer does not
  always set its duration: for the timer started on 1950-01-01 the elapsed seconds at
  2024-01-01 11:30:00 exceed the 32-bit column, the database raises and nothing is
  stored.
\<close>

theorem elapsed_seconds_above_floor_and_stop_raises:
  "elapsed_seconds (at_time (- 208188) 0 0 0) (at_time (- 9347) 1 53 4 + 999999) = 17179869185 \<and>
   max 0 \<lfloor>real_of_int (at_time (- 9347) 1 53 4 + 999999 - at_time (- 208188) 0 0 0) / 1000000\<rfloor> =
     17179869184 \<and>
   TimeEntryTimerEndpoint_delete demo_db_old (at_time 19723 11 30 0) 7 ''acme'' 1 10 =
     ((500, Raised DataError), demo_db_old)"
proof -
  have d: "at_time (- 9347) 1 53 4 + 999999 - at_time (- 208188) 0 0 0 = 17179869184999999"
    by (simp add: at_time_def)
  have a: "elapsed_seconds (at_time (- 208188) 0 0 0) (at_time (- 9347) 1 53 4 + 999999) =
      17179869185"
    unfolding elapsed_seconds_def d
    by (simp add: int_total_seconds_def int_of_true_divide_def bit_length_2_34
        round_half_even_def Let_def)
  have "\<lfloor>real_of_int (17179869184999999::int) / 1000000\<rfloor> = 17179869184999999 div 1000000"
    using floor_divide_of_int_eq [of "17179869184999999::int" 1000000, where ?'a = real]
    by simp
  then have b: "max 0 \<lfloor>real_of_int
      (at_time (- 9347) 1 53 4 + 999999 - at_time (- 208188) 0 0 0) / 1000000\<rfloor> = 17179869184"
    unfolding d by simp
  have s: "started_at demo_old_timer = Some (at_time (- 7305) 0 0 0)"
    by (simp add: demo_defs)
  from delete_stops [OF demo_old_enabled demo_old_first, of "at_time 19723 11 30 0" "''acme''"]
    s demo_old_elapsed
  have c: "TimeEntryTimerEndpoint_delete demo_db_old (at_time 19723 11 30 0) 7 ''acme'' 1 10 =
     ((500, Raised DataError), demo_db_old)"
    by auto
  from a b c show ?thesis by blast
qed

text \<open>
  Claim C5, amended. For every two instants less than \<open>2 ^ 34\<close> seconds apart (or in the
  wrong order) the elapsed seconds are the larger of 0 and the floor of their difference
  in seconds; for any two instants they are not negative. Stopping the user's timer on
  an issue, when its elapsed seconds from \<^verbatim>\<open>started_at\<close> to the clock are at most
  2147483647, is answered 200 and replaces the row by the one with \<^verbatim>\<open>ended_at\<close> the
  clock and \<^verbatim>\<open>duration_seconds\<close> the elapsed seconds, all other rows staying as they
  are; when they are more, the database raises \<^verbatim>\<open>DataError\<close> and the table stays as it
  was. If no stored duration is negative, none is after a timer start, a timer stop, a
  create, a partial update or a delete, whatever the request and its outcome.
\<close>

theorem elapsed_seconds_floor_and_durations_non_negative:
  "(finish - start < 17179869184000000 \<longrightarrow>
      elapsed_seconds start finish = max 0 \<lfloor>real_of_int (finish - start) / 1000000\<rfloor>) \<and>
   0 \<le> elapsed_seconds start finish \<and>
   (check_time_tracking_enabled db pid = None \<longrightarrow>
    first (filter (active_timer_filter iid u) (time_entries db)) = Some timer \<longrightarrow>
      (\<exists>s. started_at timer = Some s \<and>
         (elapsed_seconds s now \<le> 2147483647 \<longrightarrow>
            TimeEntryTimerEndpoint_delete db now u sl pid iid =
              ((200, Entry (to_representation
                  (timer\<lparr>ended_at := Some now, duration_seconds := elapsed_seconds s now\<rparr>))),
               db\<lparr>time_entries :=
                 map (\<lambda>x. if te_id x = te_id timer
                          then timer\<lparr>ended_at := Some now,
                                 duration_seconds := elapsed_seconds s now\<rparr>
                          else x)
                   (time_entries db)\<rparr>)) \<and>
         (2147483647 < elapsed_seconds s now \<longrightarrow>
            TimeEntryTimerEndpoint_delete db now u sl pid iid = ((500, Raised DataError), db)))) \<and>
   (durations_non_negative db \<longrightarrow>
      durations_non_negative (snd (TimeEntryTimerEndpoint_post db now new_id u req sl pid iid)) \<and>
      durations_non_negative (snd (TimeEntryTimerEndpoint_delete db now u sl pid iid)) \<and>
      durations_non_negative (snd (TimeEntryViewSet_create db now new_id u payload sl pid iid)) \<and>
      durations_non_negative (snd (TimeEntryViewSet_partial_update db u upd sl pid iid pk)) \<and>
      durations_non_negative (snd (TimeEntryViewSet_destroy db u sl pid iid pk)))"
  using elapsed_floor [of finish start] elapsed_nonneg [of start finish]
    delete_stops [of db pid iid u timer now sl]
    post_nonneg [of db now new_id u req sl pid iid]
    delete_nonneg [of db now u sl pid iid]
    create_nonneg [of db now new_id u payload sl pid iid]
    partial_update_nonneg [of db u upd sl pid iid pk]
    destroy_nonneg [of db u sl pid iid pk]
  by blast

theorem elapsed_seconds_floor_and_durations_non_negative_witness:
  "elapsed_seconds (at_time 19723 10 0 0) (at_time 19723 11 30 0) = 5400 \<and>
   max 0 \<lfloor>real_of_int (at_time 19723 11 30 0 - at_time 19723 10 0 0) / 1000000\<rfloor> = 5400 \<and>
   TimeEntryTimerEndpoint_delete demo_db (at_time 19723 11 30 0) 7 ''acme'' 1 10 =
     ((200, Entry (to_representation demo_stopped_a)),
      demo_db\<lparr>time_entries := [demo_stopped_a]\<rparr>) \<and>
   durations_non_negative
     (snd (TimeEntryTimerEndpoint_delete demo_db (at_time 19723 11 30 0) 7 ''acme'' 1 10))"
proof -
  have bd: "at_time 19723 11 30 0 - at_time 19723 10 0 0 < 17179869184000000"
    by (simp add: at_time_def)
  have st: "\<And>s. started_at demo_timer_a = Some s \<Longrightarrow> s = at_time 19723 10 0 0"
    by (simp add: demo_timer_a_def)
  have eq: "demo_timer_a\<lparr>ended_at := Some (at_time 19723 11 30 0), duration_seconds := 5400\<rparr> =
      demo_stopped_a"
    by (simp add: demo_stopped_a_def)
  have mp: "map (\<lambda>x. if te_id x = te_id demo_timer_a then demo_stopped_a else x)
      (time_entries demo_db) = [demo_stopped_a]"
    by (simp add: demo_defs)
  note t = elapsed_seconds_floor_and_durations_non_negative
         [of "at_time 19723 11 30 0" "at_time 19723 10 0 0" demo_db 1 10 7 demo_timer_a
             "at_time 19723 11 30 0" "''acme''" 101 empty_request timer_payload
             override_payload 100]
  from t bd demo_elapsed
  have f: "max 0 \<lfloor>real_of_int (at_time 19723 11 30 0 - at_time 19723 10 0 0) / 1000000\<rfloor> = 5400"
    by simp
  from t demo_enabled demo_first_timer demo_nonneg
  obtain s where s: "started_at demo_timer_a = Some s"
    and r: "elapsed_seconds s (at_time 19723 11 30 0) \<le> 2147483647 \<longrightarrow>
            TimeEntryTimerEndpoint_delete demo_db (at_time 19723 11 30 0) 7 ''acme'' 1 10 =
              ((200, Entry (to_representation
                  (demo_timer_a\<lparr>ended_at := Some (at_time 19723 11 30 0),
                     duration_seconds := elapsed_seconds s (at_time 19723 11 30 0)\<rparr>))),
               demo_db\<lparr>time_entries :=
                 map (\<lambda>x. if te_id x = te_id demo_timer_a
                          then demo_timer_a\<lparr>ended_at := Some (at_time 19723 11 30 0),
                                 duration_seconds := elapsed_seconds s (at_time 19723 11 30 0)\<rparr>
                          else x)
                   (time_entries demo_db)\<rparr>)"
    and n: "durations_non_negative
     (snd (TimeEntryTimerEndpoint_delete demo_db (at_time 19723 11 30 0) 7 ''acme'' 1 10))"
    by blast
  from s have se: "s = at_time 19723 10 0 0" by (rule st)
  have "TimeEntryTimerEndpoint_delete demo_db (at_time 19723 11 30 0) 7 ''acme'' 1 10 =
     ((200, Entry (to_representation demo_stopped_a)),
      demo_db\<lparr>time_entries := [demo_stopped_a]\<rparr>)"
    using r unfolding se demo_elapsed eq mp by simp
  with demo_elapsed f n show ?thesis by blast
qed

subsection \<open>An explicit duration on update\<close>

text \<open>
  Claim C8 does not hold as stated: not every existing entry with both datetimes set
  takes the update. The create endpoint does not compare \<^verbatim>\<open>started_at\<close> with
  \<^verbatim>\<open>ended_at\<close> and stores an entry that starts at 12:00:00 and ends at 10:00:00; an
  update of that entry that gives only a duration of 3600 is then answered 400, the
  update validator finding the stored start after the stored end, and nothing is
  stored.
\<close>

theorem update_rejected_when_start_after_end:
  "TimeEntryViewSet_create demo_db (at_time 19723 12 30 0) 104 7 inverted_payload ''acme'' 1 11 =
     ((201, Entry (to_representation demo_inverted)), demo_db_inverted) \<and>
   started_at demo_inverted = Some (at_time 19723 12 0 0) \<and>
   ended_at demo_inverted = Some (at_time 19723 10 0 0) \<and>
   u_duration_seconds override_payload = Given 3600 \<and>
   u_started_at override_payload = Absent \<and> u_ended_at override_payload = Absent \<and>
   TimeEntryViewSet_partial_update demo_db_inverted 7 override_payload ''acme'' 1 11 104 =
     ((400, Errors StartedAfterEnded), demo_db_inverted)"
proof -
  have cf: "create_fields inverted_payload =
      Inr \<lparr>c_issue_id = 11, c_duration_seconds = Some 600,
           c_started_at = Some (at_time 19723 12 0 0), c_ended_at = Some (at_time 19723 10 0 0),
           c_source = MANUAL, c_note = None, c_is_billable = False\<rparr>"
    by (simp add: create_fields_def inverted_payload_def)
  have cr: "TimeEntryViewSet_create demo_db (at_time 19723 12 30 0) 104 7 inverted_payload
      ''acme'' 1 11 = ((201, Entry (to_representation demo_inverted)), demo_db_inverted)"
    using demo_enabled demo_get_issue_b cf
    by (simp add: TimeEntryViewSet_create_def create_validate_def new_entry_def Let_def
        objects_create_def check_row_def)
       (simp add: demo_defs)
  have ge: "get_entry demo_db_inverted ''acme'' 1 11 104 = Some demo_inverted"
    by (simp add: get_entry_def demo_defs)
  have uf: "update_fields override_payload = Inr override_payload"
    by (simp add: update_fields_def override_payload_def)
  have uv: "update_validate demo_inverted override_payload = Inl StartedAfterEnded"
    by (simp add: update_validate_def get_or_def override_payload_def demo_inverted_def
        at_time_def)
  have up: "TimeEntryViewSet_partial_update demo_db_inverted 7 override_payload ''acme'' 1 11 104 =
     ((400, Errors StartedAfterEnded), demo_db_inverted)"
    using demo_inverted_enabled ge uf uv
    by (simp add: TimeEntryViewSet_partial_update_def demo_inverted_def)
  have f: "started_at demo_inverted = Some (at_time 19723 12 0 0)"
    "ended_at demo_inverted = Some (at_time 19723 10 0 0)"
    "u_duration_seconds override_payload = Given 3600"
    "u_started_at override_payload = Absent" "u_ended_at override_payload = Absent"
    by (simp_all add: demo_inverted_def override_payload_def)
  from cr f up show ?thesis by blast
qed

text \<open>
  Claim C8, amended. For an existing entry with \<^verbatim>\<open>started_at\<close> and \<^verbatim>\<open>ended_at\<close> set
  and \<^verbatim>\<open>started_at\<close> not after \<^verbatim>\<open>ended_at\<close>, an update by its owner or a project
  admin (time tracking enabled) that leaves both datetimes as they are (absent from the
  payload, or given with the stored values) and gives a \<^verbatim>\<open>duration_seconds\<close> that is
  positive and at most 2147483647 is answered 200; the row of that key is replaced by
  the entry with exactly the given duration, not the one derived from the two
  datetimes, with the trimmed note and the billable flag of the payload where it gives
  them, every other row staying as it is; and looking the entry up afterwards yields
  that row.
\<close>

theorem update_explicit_duration_wins:
  assumes "check_time_tracking_enabled db pid = None"
    and "get_entry db sl pid iid pk = Some entry"
    and "te_user entry = u \<or> (pid, u) \<in> set (admins db)"
    and "started_at entry = Some s" and "ended_at entry = Some e" and "s \<le> e"
    and "u_started_at payload = Absent \<or> u_started_at payload = Given (Some s)"
    and "u_ended_at payload = Absent \<or> u_ended_at payload = Given (Some e)"
    and "u_duration_seconds payload = Given d" and "0 < d" and "d \<le> 2147483647"
    and "updated =
           entry\<lparr>duration_seconds := d,
                 te_note := (case u_note payload of
                               Absent \<Rightarrow> te_note entry
                             | Given v \<Rightarrow> map_option strip v),
                 is_billable := (case u_is_billable payload of
                                   Absent \<Rightarrow> is_billable entry
                                 | Given b \<Rightarrow> b)\<rparr>"
  shows "TimeEntryViewSet_partial_update db u payload sl pid iid pk =
           ((200, Entry (to_representation updated)),
            db\<lparr>time_entries :=
              map (\<lambda>x. if te_id x = pk then updated else x) (time_entries db)\<rparr>) \<and>
         get_entry (snd (TimeEntryViewSet_partial_update db u payload sl pid iid pk))
           sl pid iid pk = Some updated \<and>
         duration_seconds updated = d \<and>
         started_at updated = Some s \<and>
         ended_at updated = Some e"
proof -
  define trimmed where "trimmed =
      payload\<lparr>u_note := (case u_note payload of
                            Absent \<Rightarrow> Absent
                          | Given v \<Rightarrow> Given (map_option strip v))\<rparr>"
  have f: "update_fields payload = Inr trimmed"
    using assms(9-11) by (simp add: update_fields_def trimmed_def)
  have g: "get_or (u_started_at trimmed) (started_at entry) = Some s"
    "get_or (u_ended_at trimmed) (ended_at entry) = Some e"
    using assms(4,5,7,8) by (auto simp: get_or_def trimmed_def)
  have v: "update_validate entry trimmed = Inr trimmed"
    using g assms(6,9,10) by (simp add: update_validate_def trimmed_def)
  have a: "apply_update entry trimmed = updated"
    unfolding assms(12) using assms(4,5,7,8,9)
    by (cases entry) (auto simp: apply_update_def trimmed_def split: field.splits)
  have k: "te_id updated = pk" "te_workspace updated = sl" "te_project updated = pid"
    "te_issue updated = iid"
    using get_entry_Some [OF assms(2)] by (simp_all add: assms(12))
  have du: "duration_seconds updated = d" "started_at updated = Some s"
    "ended_at updated = Some e"
    using assms(4,5) by (simp_all add: assms(12))
  have c: "check_row updated = None"
    using du(1) assms(10,11) by (simp add: check_row_None_iff)
  have r: "TimeEntryViewSet_partial_update db u payload sl pid iid pk =
           ((200, Entry (to_representation updated)),
            db\<lparr>time_entries :=
              map (\<lambda>x. if te_id x = pk then updated else x) (time_entries db)\<rparr>)"
    using assms(1,2,3) f v a c k(1)
    by (auto simp: TimeEntryViewSet_partial_update_def Let_def save_ok)
  have l: "get_entry (snd (TimeEntryViewSet_partial_update db u payload sl pid iid pk))
           sl pid iid pk = Some updated"
    unfolding r snd_conv
    by (rule get_entry_after_save [OF assms(2) k(2) k(3) k(4) k(1)])
  from r l du show ?thesis by blast
qed

theorem update_explicit_duration_wins_witness:
  "TimeEntryViewSet_partial_update demo_db_stopped 7 override_payload ''acme'' 1 10 100 =
     ((200, Entry (to_representation (demo_stopped_a\<lparr>duration_seconds := 3600\<rparr>))),
      demo_db_stopped\<lparr>time_entries := [demo_stopped_a\<lparr>duration_seconds := 3600\<rparr>]\<rparr>) \<and>
   duration_seconds demo_stopped_a = 5400 \<and>
   elapsed_seconds (at_time 19723 10 0 0) (at_time 19723 11 30 0) = 5400"
proof -
  have en: "check_time_tracking_enabled demo_db_stopped 1 = None"
    by (simp add: check_time_tracking_enabled_def demo_defs)
  have ge: "get_entry demo_db_stopped ''acme'' 1 10 100 = Some demo_stopped_a"
    by (simp add: get_entry_def demo_defs)
  have ow: "te_user demo_stopped_a = 7 \<or> (1, 7) \<in> set (admins demo_db_stopped)"
    by (simp add: demo_defs)
  have st: "started_at demo_stopped_a = Some (at_time 19723 10 0 0)"
    and en': "ended_at demo_stopped_a = Some (at_time 19723 11 30 0)"
    by (simp_all add: demo_defs)
  have le: "at_time 19723 10 0 0 \<le> at_time 19723 11 30 0"
    by (simp add: at_time_def)
  have pa: "u_started_at override_payload = Absent \<or>
            u_started_at override_payload = Given (Some (at_time 19723 10 0 0))"
    "u_ended_at override_payload = Absent \<or>
     u_ended_at override_payload = Given (Some (at_time 19723 11 30 0))"
    "u_duration_seconds override_payload = Given 3600"
    by (simp_all add: override_payload_def)
  have d: "(0::int) < 3600" "(3600::int) \<le> 2147483647" by simp_all
  have u: "demo_stopped_a\<lparr>duration_seconds := 3600\<rparr> =
      demo_stopped_a\<lparr>duration_seconds := 3600,
        te_note := (case u_note override_payload of
                      Absent \<Rightarrow> te_note demo_stopped_a
                    | Given v \<Rightarrow> map_option strip v),
        is_billable := (case u_is_billable override_payload of
                          Absent \<Rightarrow> is_billable demo_stopped_a
                        | Given b \<Rightarrow> b)\<rparr>"
    by (simp add: override_payload_def)
  have mp: "map (\<lambda>x. if te_id x = 100 then demo_stopped_a\<lparr>duration_seconds := 3600\<rparr> else x)
      (time_entries demo_db_stopped) = [demo_stopped_a\<lparr>duration_seconds := 3600\<rparr>]"
    by (simp add: demo_defs)
  have ds: "duration_seconds demo_stopped_a = 5400" by (simp add: demo_defs)
  from update_explicit_duration_wins [OF en ge ow st en' le pa d u] mp ds demo_elapsed
  show ?thesis by simp
qed

subsection \<open>Entries with a start and no end that are not timers\<close>

text \<open>
  Claim C10 does not hold as stated in its last part: \<^verbatim>\<open>get_active\<close> returns one
  entry, the first of the query, so of two MANUAL entries of the same user on the same
  issue that both have \<^verbatim>\<open>started_at\<close> set and \<^verbatim>\<open>ended_at\<close> null only the newer one
  is returned.
\<close>

theorem get_active_returns_newest_open_entry_only:
  "demo_manual_b \<in> set (time_entries demo_db_two_manual) \<and>
   source demo_manual_b = MANUAL \<and>
   started_at demo_manual_b = Some (at_time 19723 9 0 0) \<and>
   ended_at demo_manual_b = None \<and>
   te_user demo_manual_b = 7 \<and> te_issue demo_manual_b = 11 \<and>
   TimeEntryActiveTimerEndpoint_get demo_db_two_manual 7 ''acme'' 1 11 =
     (200, ActiveTimer (Some (to_representation demo_manual_b2))) \<and>
   TimeEntryActiveTimerEndpoint_get demo_db_two_manual 7 ''acme'' 1 11 \<noteq>
     (200, ActiveTimer (Some (to_representation demo_manual_b)))"
  by (simp add: TimeEntryActiveTimerEndpoint_get_def first_def active_timer_filter_def
      to_representation_def time_entry.defs demo_defs)

text \<open>
  Claim C10, amended. The queries of timer start, stop and \<^verbatim>\<open>get_active\<close> select by
  \<^verbatim>\<open>started_at\<close> set and \<^verbatim>\<open>ended_at\<close> null and do not look at the source. So for
  every MANUAL entry of a user on an issue with \<^verbatim>\<open>started_at\<close> set and \<^verbatim>\<open>ended_at\<close>
  null: its serialized \<^verbatim>\<open>is_active\<close> is false; a start on that issue (time tracking
  enabled, issue found) is answered 400 with the conflict message and changes nothing;
  a start on another issue (time tracking enabled, issue found, no such entry of the
  user on it, primary keys distinct, and the elapsed seconds of every entry it stops
  at most 2147483647) is answered 201 and stores the new timer in front of the table
  in which this entry, like every other entry of the user on another issue with a start
  and no end, has \<^verbatim>\<open>ended_at\<close> the clock and \<^verbatim>\<open>duration_seconds\<close> its elapsed
  seconds; \<^verbatim>\<open>get_active\<close> answers with the first entry of the query, the entries of
  the user on the issue with a start and no end; a stop on that issue (time tracking
  enabled) stops that first entry and is answered 200 when its elapsed seconds are at
  most 2147483647, and raises \<^verbatim>\<open>DataError\<close>, storing nothing, when they are more; and
  the first entry is this very entry when it is the only one of the query.
\<close>

theorem open_manual_entry_handled_as_timer:
  assumes "e \<in> set (time_entries db)" and "source e = MANUAL"
    and "started_at e = Some s" and "ended_at e = None"
    and "te_user e = u" and "te_issue e = iid"
  shows "\<not> is_active (to_representation e) \<and>
    (check_time_tracking_enabled db pid = None \<longrightarrow> get_issue db iid pid sl = Some iss \<longrightarrow>
       TimeEntryTimerEndpoint_post db now new_id u req sl pid iid =
         ((400, Error ''You already have an active timer on this issue''), db)) \<and>
    (check_time_tracking_enabled db pid' = None \<longrightarrow> get_issue db iid' pid' sl' = Some iss' \<longrightarrow>
     iid' \<noteq> iid \<longrightarrow> distinct (map te_id (time_entries db)) \<longrightarrow>
     (\<forall>x\<in>set (time_entries db). \<not> active_timer_filter iid' u x) \<longrightarrow>
     (\<forall>x\<in>set (time_entries db).
        other_active_filter iid' u x \<longrightarrow> duration_seconds (stop_timer now x) \<le> 2147483647) \<longrightarrow>
       TimeEntryTimerEndpoint_post db now new_id u req sl' pid' iid' =
         ((201, Entry (to_representation (new_timer iss' u now new_id req))),
          db\<lparr>time_entries := new_timer iss' u now new_id req #
               map (\<lambda>x. if other_active_filter iid' u x then stop_timer now x else x)
                 (time_entries db)\<rparr>) \<and>
       other_active_filter iid' u e \<and>
       stop_timer now e = e\<lparr>ended_at := Some now, duration_seconds := elapsed_seconds s now\<rparr>) \<and>
    (\<exists>a rest sa.
       filter (active_timer_filter iid u) (time_entries db) = a # rest \<and>
       started_at a = Some sa \<and>
       TimeEntryActiveTimerEndpoint_get db u sl pid iid =
         (200, ActiveTimer (Some (to_representation a))) \<and>
       (check_time_tracking_enabled db pid = None \<longrightarrow>
          (elapsed_seconds sa now \<le> 2147483647 \<longrightarrow>
             TimeEntryTimerEndpoint_delete db now u sl pid iid =
               ((200, Entry (to_representation
                   (a\<lparr>ended_at := Some now, duration_seconds := elapsed_seconds sa now\<rparr>))),
                db\<lparr>time_entries :=
                  map (\<lambda>x. if te_id x = te_id a
                           then a\<lparr>ended_at := Some now,
                                  duration_seconds := elapsed_seconds sa now\<rparr>
                           else x)
                    (time_entries db)\<rparr>)) \<and>
          (2147483647 < elapsed_seconds sa now \<longrightarrow>
             TimeEntryTimerEndpoint_delete db now u sl pid iid =
               ((500, Raised DataError), db)))) \<and>
    ((\<forall>x\<in>set (time_entries db). active_timer_filter iid u x \<longrightarrow> x = e) \<longrightarrow>
       TimeEntryActiveTimerEndpoint_get db u sl pid iid =
         (200, ActiveTimer (Some (to_representation e))))"
proof -
  have f: "active_timer_filter iid u e"
    using assms(3-6) by (simp add: active_timer_filter_def)
  have 1: "\<not> is_active (to_representation e)"
    using assms(2) by (simp add: is_active_iff)
  have 2: "check_time_tracking_enabled db pid = None \<longrightarrow> get_issue db iid pid sl = Some iss \<longrightarrow>
       TimeEntryTimerEndpoint_post db now new_id u req sl pid iid =
         ((400, Error ''You already have an active timer on this issue''), db)"
    using post_conflict [of db pid iid sl iss e u now new_id req] assms(1) f by blast
  have 3: "check_time_tracking_enabled db pid' = None \<longrightarrow> get_issue db iid' pid' sl' = Some iss' \<longrightarrow>
     iid' \<noteq> iid \<longrightarrow> distinct (map te_id (time_entries db)) \<longrightarrow>
     (\<forall>x\<in>set (time_entries db). \<not> active_timer_filter iid' u x) \<longrightarrow>
     (\<forall>x\<in>set (time_entries db).
        other_active_filter iid' u x \<longrightarrow> duration_seconds (stop_timer now x) \<le> 2147483647) \<longrightarrow>
       TimeEntryTimerEndpoint_post db now new_id u req sl' pid' iid' =
         ((201, Entry (to_representation (new_timer iss' u now new_id req))),
          db\<lparr>time_entries := new_timer iss' u now new_id req #
               map (\<lambda>x. if other_active_filter iid' u x then stop_timer now x else x)
                 (time_entries db)\<rparr>) \<and>
       other_active_filter iid' u e \<and>
       stop_timer now e = e\<lparr>ended_at := Some now, duration_seconds := elapsed_seconds s now\<rparr>"
  proof (intro impI)
    assume en: "check_time_tracking_enabled db pid' = None"
      and gi: "get_issue db iid' pid' sl' = Some iss'"
      and ne: "iid' \<noteq> iid"
      and keys: "distinct (map te_id (time_entries db))"
      and free: "\<forall>x\<in>set (time_entries db). \<not> active_timer_filter iid' u x"
      and fit: "\<forall>x\<in>set (time_entries db).
        other_active_filter iid' u x \<longrightarrow> duration_seconds (stop_timer now x) \<le> 2147483647"
    have o: "other_active_filter iid' u e"
      using assms(3-6) ne by (simp add: other_active_filter_def)
    have ok: "\<forall>x\<in>set (time_entries db).
        other_active_filter iid' u x \<longrightarrow> check_row (stop_timer now x) = None"
      using fit check_row_stop_other by blast
    show "TimeEntryTimerEndpoint_post db now new_id u req sl' pid' iid' =
         ((201, Entry (to_representation (new_timer iss' u now new_id req))),
          db\<lparr>time_entries := new_timer iss' u now new_id req #
               map (\<lambda>x. if other_active_filter iid' u x then stop_timer now x else x)
                 (time_entries db)\<rparr>) \<and>
       other_active_filter iid' u e \<and>
       stop_timer now e = e\<lparr>ended_at := Some now, duration_seconds := elapsed_seconds s now\<rparr>"
      using post_started [OF en gi free keys ok] o stop_timer_started [OF assms(3)]
      by simp
  qed
  obtain a rest sa where a: "filter (active_timer_filter iid u) (time_entries db) = a # rest"
    and sa: "started_at a = Some sa"
    and fa: "first (filter (active_timer_filter iid u) (time_entries db)) = Some a"
    using active_timer_first [OF assms(1) f] by blast
  have ga: "TimeEntryActiveTimerEndpoint_get db u sl pid iid =
         (200, ActiveTimer (Some (to_representation a)))"
    using fa by (rule get_active_first)
  have de: "check_time_tracking_enabled db pid = None \<longrightarrow>
          (elapsed_seconds sa now \<le> 2147483647 \<longrightarrow>
             TimeEntryTimerEndpoint_delete db now u sl pid iid =
               ((200, Entry (to_representation
                   (a\<lparr>ended_at := Some now, duration_seconds := elapsed_seconds sa now\<rparr>))),
                db\<lparr>time_entries :=
                  map (\<lambda>x. if te_id x = te_id a
                           then a\<lparr>ended_at := Some now,
                                  duration_seconds := elapsed_seconds sa now\<rparr>
                           else x)
                    (time_entries db)\<rparr>)) \<and>
          (2147483647 < elapsed_seconds sa now \<longrightarrow>
             TimeEntryTimerEndpoint_delete db now u sl pid iid =
               ((500, Raised DataError), db))"
  proof
    assume en: "check_time_tracking_enabled db pid = None"
    from delete_stops [OF en fa, of now sl] sa
    show "(elapsed_seconds sa now \<le> 2147483647 \<longrightarrow>
             TimeEntryTimerEndpoint_delete db now u sl pid iid =
               ((200, Entry (to_representation
                   (a\<lparr>ended_at := Some now, duration_seconds := elapsed_seconds sa now\<rparr>))),
                db\<lparr>time_entries :=
                  map (\<lambda>x. if te_id x = te_id a
                           then a\<lparr>ended_at := Some now,
                                  duration_seconds := elapsed_seconds sa now\<rparr>
                           else x)
                    (time_entries db)\<rparr>)) \<and>
          (2147483647 < elapsed_seconds sa now \<longrightarrow>
             TimeEntryTimerEndpoint_delete db now u sl pid iid =
               ((500, Raised DataError), db))"
      by auto
  qed
  have 4: "\<exists>a rest sa.
       filter (active_timer_filter iid u) (time_entries db) = a # rest \<and>
       started_at a = Some sa \<and>
       TimeEntryActiveTimerEndpoint_get db u sl pid iid =
         (200, ActiveTimer (Some (to_representation a))) \<and>
       (check_time_tracking_enabled db pid = None \<longrightarrow>
          (elapsed_seconds sa now \<le> 2147483647 \<longrightarrow>
             TimeEntryTimerEndpoint_delete db now u sl pid iid =
               ((200, Entry (to_representation
                   (a\<lparr>ended_at := Some now, duration_seconds := elapsed_seconds sa now\<rparr>))),
                db\<lparr>time_entries :=
                  map (\<lambda>x. if te_id x = te_id a
                           then a\<lparr>ended_at := Some now,
                                  duration_seconds := elapsed_seconds sa now\<rparr>
                           else x)
                    (time_entries db)\<rparr>)) \<and>
          (2147483647 < elapsed_seconds sa now \<longrightarrow>
             TimeEntryTimerEndpoint_delete db now u sl pid iid =
               ((500, Raised DataError), db)))"
    by (rule exI [of _ a], rule exI [of _ rest], rule exI [of _ sa])
       (intro conjI a sa ga de)
  have am: "a \<in> set (time_entries db) \<and> active_timer_filter iid u a"
    using fa by (rule first_filter_Some)
  have 5: "(\<forall>x\<in>set (time_entries db). active_timer_filter iid u x \<longrightarrow> x = e) \<longrightarrow>
       TimeEntryActiveTimerEndpoint_get db u sl pid iid =
         (200, ActiveTimer (Some (to_representation e)))"
    using am ga by auto
  from 1 2 3 4 5 show ?thesis by blast
qed

theorem open_manual_entry_handled_as_timer_witness:
  "\<not> is_active (to_representation demo_manual_b2) \<and>
   TimeEntryTimerEndpoint_post demo_db_two_manual (at_time 19723 11 30 0) 105 7 empty_request
     ''acme'' 1 11 =
     ((400, Error ''You already have an active timer on this issue''), demo_db_two_manual) \<and>
   TimeEntryTimerEndpoint_post demo_db_two_manual (at_time 19723 11 30 0) 105 7 empty_request
     ''acme'' 1 10 =
     ((201, Entry (to_representation
         (new_timer demo_issue_a 7 (at_time 19723 11 30 0) 105 empty_request))),
      demo_db\<lparr>time_entries :=
        [new_timer demo_issue_a 7 (at_time 19723 11 30 0) 105 empty_request,
         demo_manual_b2\<lparr>ended_at := Some (at_time 19723 11 30 0), duration_seconds := 7200\<rparr>,
         demo_manual_b\<lparr>ended_at := Some (at_time 19723 11 30 0), duration_seconds := 9000\<rparr>]\<rparr>) \<and>
   TimeEntryActiveTimerEndpoint_get demo_db_two_manual 7 ''acme'' 1 11 =
     (200, ActiveTimer (Some (to_representation demo_manual_b2))) \<and>
   TimeEntryTimerEndpoint_delete demo_db_two_manual (at_time 19723 11 30 0) 7 ''acme'' 1 11 =
     ((200, Entry (to_representation
         (demo_manual_b2\<lparr>ended_at := Some (at_time 19723 11 30 0), duration_seconds := 7200\<rparr>))),
      demo_db\<lparr>time_entries :=
        [demo_manual_b2\<lparr>ended_at := Some (at_time 19723 11 30 0), duration_seconds := 7200\<rparr>,
         demo_manual_b]\<rparr>)"
proof -
  let ?now = "at_time 19723 11 30 0"
  have m: "demo_manual_b2 \<in> set (time_entries demo_db_two_manual)"
    "source demo_manual_b2 = MANUAL" "started_at demo_manual_b2 = Some (at_time 19723 9 30 0)"
    "ended_at demo_manual_b2 = None" "te_user demo_manual_b2 = 7" "te_issue demo_manual_b2 = 11"
    by (simp_all add: demo_defs)
  have ne: "(10::nat) \<noteq> 11" by simp
  have keys: "distinct (map te_id (time_entries demo_db_two_manual))"
    by (simp add: demo_defs)
  have free: "\<forall>x\<in>set (time_entries demo_db_two_manual). \<not> active_timer_filter 10 7 x"
    by (simp add: active_timer_filter_def demo_defs)
  have st: "stop_timer ?now demo_manual_b2 =
      demo_manual_b2\<lparr>ended_at := Some ?now, duration_seconds := 7200\<rparr>"
    "stop_timer ?now demo_manual_b =
      demo_manual_b\<lparr>ended_at := Some ?now, duration_seconds := 9000\<rparr>"
    using demo_two_elapsed by (simp_all add: stop_timer_def demo_manual_b2_def demo_manual_b_def)
  have oth: "other_active_filter 10 7 demo_manual_b2" "other_active_filter 10 7 demo_manual_b"
    by (simp_all add: other_active_filter_def demo_defs)
  have te: "time_entries demo_db_two_manual = [demo_manual_b2, demo_manual_b]"
    by (simp add: demo_defs)
  have fit: "\<forall>x\<in>set (time_entries demo_db_two_manual).
      other_active_filter 10 7 x \<longrightarrow> duration_seconds (stop_timer ?now x) \<le> 2147483647"
    unfolding te using st by simp
  have stopped_rows: "map (\<lambda>x. if other_active_filter 10 7 x then stop_timer ?now x else x)
      (time_entries demo_db_two_manual) =
      [demo_manual_b2\<lparr>ended_at := Some ?now, duration_seconds := 7200\<rparr>,
       demo_manual_b\<lparr>ended_at := Some ?now, duration_seconds := 9000\<rparr>]"
    unfolding te using st oth by simp
  have fl: "filter (active_timer_filter 11 7) (time_entries demo_db_two_manual) =
      [demo_manual_b2, demo_manual_b]"
    by (simp add: active_timer_filter_def demo_defs)
  have saved_rows: "map (\<lambda>x. if te_id x = te_id demo_manual_b2
        then demo_manual_b2\<lparr>ended_at := Some ?now, duration_seconds := 7200\<rparr> else x)
      (time_entries demo_db_two_manual) =
      [demo_manual_b2\<lparr>ended_at := Some ?now, duration_seconds := 7200\<rparr>, demo_manual_b]"
    by (simp add: demo_defs)
  have db: "\<And>es. demo_db_two_manual\<lparr>time_entries := es\<rparr> = demo_db\<lparr>time_entries := es\<rparr>"
    by (simp add: demo_db_two_manual_def)
  note a = open_manual_entry_handled_as_timer [OF m,
      where pid = 1 and sl = "''acme''" and iss = demo_issue_b and now = ?now
        and new_id = 105 and req = empty_request
        and pid' = 1 and iid' = 10 and sl' = "''acme''" and iss' = demo_issue_a]
  note a1 = a [THEN conjunct1]
  note a2 = a [THEN conjunct2, THEN conjunct1]
  note a3 = a [THEN conjunct2, THEN conjunct2, THEN conjunct1]
  note a4 = a [THEN conjunct2, THEN conjunct2, THEN conjunct2, THEN conjunct1]
  have 1: "\<not> is_active (to_representation demo_manual_b2)" by (rule a1)
  have 2: "TimeEntryTimerEndpoint_post demo_db_two_manual ?now 105 7 empty_request ''acme'' 1 11 =
     ((400, Error ''You already have an active timer on this issue''), demo_db_two_manual)"
    by (rule a2 [THEN mp, THEN mp, OF demo_two_enabled demo_two_get_issue_b])
  have "TimeEntryTimerEndpoint_post demo_db_two_manual ?now 105 7 empty_request ''acme'' 1 10 =
         ((201, Entry (to_representation (new_timer demo_issue_a 7 ?now 105 empty_request))),
          demo_db_two_manual\<lparr>time_entries := new_timer demo_issue_a 7 ?now 105 empty_request #
               map (\<lambda>x. if other_active_filter 10 7 x then stop_timer ?now x else x)
                 (time_entries demo_db_two_manual)\<rparr>)"
    by (rule a3 [THEN mp, THEN mp, THEN mp, THEN mp, THEN mp, THEN mp, THEN conjunct1,
          OF demo_two_enabled demo_two_get_issue_a ne keys free fit])
  then have 3: "TimeEntryTimerEndpoint_post demo_db_two_manual ?now 105 7 empty_request
      ''acme'' 1 10 =
     ((201, Entry (to_representation (new_timer demo_issue_a 7 ?now 105 empty_request))),
      demo_db\<lparr>time_entries :=
        [new_timer demo_issue_a 7 ?now 105 empty_request,
         demo_manual_b2\<lparr>ended_at := Some ?now, duration_seconds := 7200\<rparr>,
         demo_manual_b\<lparr>ended_at := Some ?now, duration_seconds := 9000\<rparr>]\<rparr>)"
    unfolding stopped_rows db by simp
  from a4 obtain x rest sx where
    x: "filter (active_timer_filter 11 7) (time_entries demo_db_two_manual) = x # rest"
    and sx: "started_at x = Some sx"
    and g: "TimeEntryActiveTimerEndpoint_get demo_db_two_manual 7 ''acme'' 1 11 =
         (200, ActiveTimer (Some (to_representation x)))"
    and d: "check_time_tracking_enabled demo_db_two_manual 1 = None \<longrightarrow>
          (elapsed_seconds sx ?now \<le> 2147483647 \<longrightarrow>
             TimeEntryTimerEndpoint_delete demo_db_two_manual ?now 7 ''acme'' 1 11 =
               ((200, Entry (to_representation
                   (x\<lparr>ended_at := Some ?now, duration_seconds := elapsed_seconds sx ?now\<rparr>))),
                demo_db_two_manual\<lparr>time_entries :=
                  map (\<lambda>y. if te_id y = te_id x
                           then x\<lparr>ended_at := Some ?now,
                                  duration_seconds := elapsed_seconds sx ?now\<rparr>
                           else y)
                    (time_entries demo_db_two_manual)\<rparr>)) \<and>
          (2147483647 < elapsed_seconds sx ?now \<longrightarrow>
             TimeEntryTimerEndpoint_delete demo_db_two_manual ?now 7 ''acme'' 1 11 =
               ((500, Raised DataError), demo_db_two_manual))"
    by (elim exE conjE)
  from x fl have xe: "x = demo_manual_b2" by simp
  with sx m(3) have se: "sx = at_time 19723 9 30 0" by simp
  from g have 4: "TimeEntryActiveTimerEndpoint_get demo_db_two_manual 7 ''acme'' 1 11 =
     (200, ActiveTimer (Some (to_representation demo_manual_b2)))"
    unfolding xe .
  have 5: "TimeEntryTimerEndpoint_delete demo_db_two_manual ?now 7 ''acme'' 1 11 =
     ((200, Entry (to_representation
         (demo_manual_b2\<lparr>ended_at := Some ?now, duration_seconds := 7200\<rparr>))),
      demo_db\<lparr>time_entries :=
        [demo_manual_b2\<lparr>ended_at := Some ?now, duration_seconds := 7200\<rparr>,
         demo_manual_b]\<rparr>)"
    using d demo_two_enabled unfolding xe se demo_two_elapsed saved_rows db by simp
  from 1 2 3 4 5 show ?thesis by blast
qed

end
